theory Spec2Isabelle
  imports Main "HOL-Library.DAList"
begin

section \<open>Python values, exceptions and XML elements\<close>

text \<open>
  The module \<^verbatim>\<open>addons/cppcheckdata.py\<close> reads a Cppcheck dump (an XML document) into
  Python objects and links them. The embedding keeps the objects of one configuration in
  the lists the configuration owns; a reference to an object is the list it lives in and
  its position there. An exception is a value of type \<open>error\<close>; a function that can
  raise returns \<open>error + 'a\<close>.
\<close>

datatype error =
    KeyError "string option"
  | ValueError
  | TypeError
  | AttributeError
  | IndexError

fun ebind :: "error + 'a \<Rightarrow> ('a \<Rightarrow> error + 'b) \<Rightarrow> error + 'b" where
  "ebind (Inl e) f = Inl e"
| "ebind (Inr x) f = f x"

text \<open>
  An element of \<^verbatim>\<open>xml.etree.ElementTree\<close>: its tag, its attributes (a dictionary; the
  first entry of a key is the one \<open>get\<close> finds) and its child elements.
\<close>

datatype element =
  Element (tag: string) (attrib: "(string \<times> string) list") (children: "element list")

definition get :: "element \<Rightarrow> string \<Rightarrow> string option" where
  "get e k = map_of (attrib e) k"

text \<open>\<^verbatim>\<open>node.find(t)\<close>: the first child with tag \<open>t\<close>, or None.\<close>

definition find_child :: "element \<Rightarrow> string \<Rightarrow> element option" where
  "find_child e t = List.find (\<lambda>c. tag c = t) (children e)"

text \<open>
  The truth value of \<^verbatim>\<open>element.get(k)\<close> in an \<^verbatim>\<open>if\<close>: None and the empty string are
  false, every other string is true.
\<close>

definition truthy :: "string option \<Rightarrow> bool" where
  "truthy a = (case a of None \<Rightarrow> False | Some s \<Rightarrow> s \<noteq> [])"

text \<open>
  Python's \<^verbatim>\<open>int(s)\<close> on a string, for ASCII input: white space around the number is
  dropped, one sign is allowed, and the digits may be grouped by single underscores.
  \<open>None\<close> stands for the ValueError that \<^verbatim>\<open>int\<close> raises on anything else.
\<close>

definition is_space :: "char \<Rightarrow> bool" where
  "is_space c = (c \<in> set [CHR '' '', CHR 0x09, CHR 0x0A, CHR 0x0B, CHR 0x0C, CHR 0x0D])"

definition strip :: "string \<Rightarrow> string" where
  "strip s = rev (dropWhile is_space (rev (dropWhile is_space s)))"

definition digit_val :: "char \<Rightarrow> nat option" where
  "digit_val c = map_of
     [(CHR ''0'', 0), (CHR ''1'', 1), (CHR ''2'', 2), (CHR ''3'', 3), (CHR ''4'', 4),
      (CHR ''5'', 5), (CHR ''6'', 6), (CHR ''7'', 7), (CHR ''8'', 8), (CHR ''9'', 9)] c"

fun parse_digits :: "nat \<Rightarrow> bool \<Rightarrow> string \<Rightarrow> nat option" where
  "parse_digits acc after_digit [] = (if after_digit then Some acc else None)"
| "parse_digits acc after_digit (c # cs) =
     (if c = CHR ''_'' then (if after_digit then parse_digits acc False cs else None)
      else (case digit_val c of
              None \<Rightarrow> None
            | Some d \<Rightarrow> parse_digits (10 * acc + d) True cs))"

definition py_int :: "string \<Rightarrow> int option" where
  "py_int s =
     (case strip s of
        [] \<Rightarrow> None
      | c # cs \<Rightarrow>
          if c = CHR ''-'' then map_option (\<lambda>n. - int n) (parse_digits 0 False cs)
          else if c = CHR ''+'' then map_option int (parse_digits 0 False cs)
          else map_option int (parse_digits 0 False (c # cs)))"

text \<open>
  \<^verbatim>\<open>int(element.get(k))\<close>: TypeError when the attribute is absent, ValueError when it
  is not a number.
\<close>

definition int_attr :: "string option \<Rightarrow> error + int" where
  "int_attr a =
     (case a of
        None \<Rightarrow> Inl TypeError
      | Some s \<Rightarrow> (case py_int s of None \<Rightarrow> Inl ValueError | Some n \<Rightarrow> Inr n))"

text \<open>
  A field that Python leaves dynamically typed: None, a string or an integer.
\<close>

datatype pyval = PyNone | PyStr string | PyInt int

definition str_or_none :: "string option \<Rightarrow> pyval" where
  "str_or_none a = (case a of None \<Rightarrow> PyNone | Some s \<Rightarrow> PyStr s)"

text \<open>
  The pattern \<^verbatim>\<open>x = element.get(k); if x: x = int(x)\<close>: an absent attribute stays None,
  an empty one stays the empty string, any other is converted or raises.
\<close>

definition int_if_truthy :: "string option \<Rightarrow> error + pyval" where
  "int_if_truthy a =
     (if truthy a then ebind (int_attr a) (\<lambda>n. Inr (PyInt n)) else Inr (str_or_none a))"

definition is_numeric :: "pyval \<Rightarrow> bool" where
  "is_numeric v = (case v of PyInt n \<Rightarrow> True | _ \<Rightarrow> False)"

section \<open>Record builders\<close>

subsection \<open>Value\<close>

record "value" =
  val_intvalue :: pyval
  val_tokvalue :: "string option"
  val_floatvalue :: pyval
  val_containerSize :: pyval
  val_condition :: pyval
  val_valueKind :: "string option"
  val_inconclusive :: bool

definition Value_init :: "element \<Rightarrow> error + value" where
  "Value_init element =
     ebind (int_if_truthy (get element ''intvalue'')) (\<lambda>intvalue.
     ebind (int_if_truthy (get element ''condition-line'')) (\<lambda>condition.
       Inr \<lparr> val_intvalue = intvalue,
             val_tokvalue = get element ''tokvalue'',
             val_floatvalue = str_or_none (get element ''floatvalue''),
             val_containerSize = str_or_none (get element ''container-size''),
             val_condition = condition,
             val_valueKind =
               (if truthy (get element ''known'') then Some ''known''
                else if truthy (get element ''possible'') then Some ''possible''
                else None),
             val_inconclusive = truthy (get element ''inconclusive'') \<rparr>))"

subsection \<open>References\<close>

text \<open>
  A reference to an object of a configuration: the list that holds the object and its
  position. \<open>ArgumentRef\<close> points into the list of function-argument variables that
  \<^verbatim>\<open>iterconfigurations\<close> keeps beside the configuration, \<open>ValuesRef i\<close> is the
  \<^verbatim>\<open>values\<close> list of the \<open>i\<close>-th ValueFlow object. A field of type \<open>pyref option\<close> is
  None or a reference.
\<close>

datatype pyref =
    TokenRef nat
  | ScopeRef nat
  | FunctionRef nat
  | VariableRef nat
  | ArgumentRef nat
  | ValuesRef nat

subsection \<open>ValueType\<close>

record valuetype =
  vt_type :: "string option"
  vt_sign :: "string option"
  vt_bits :: int
  vt_constness :: int
  vt_pointer :: int
  vt_typeScopeId :: "string option"
  vt_typeScope :: "pyref option"
  vt_originalTypeName :: "string option"

text \<open>\<^verbatim>\<open>x = element.get(k); if x: self.f = int(x)\<close>, with 0 otherwise.\<close>

definition int_or_zero :: "string option \<Rightarrow> error + int" where
  "int_or_zero a = (if truthy a then int_attr a else Inr 0)"

definition ValueType_init :: "element \<Rightarrow> error + valuetype" where
  "ValueType_init element =
     ebind (int_or_zero (get element ''valueType-bits'')) (\<lambda>bits.
     ebind (int_or_zero (get element ''valueType-constness'')) (\<lambda>constness.
     ebind (int_or_zero (get element ''valueType-pointer'')) (\<lambda>pointer.
       Inr \<lparr> vt_type = get element ''valueType-type'',
             vt_sign = get element ''valueType-sign'',
             vt_bits = bits,
             vt_constness = constness,
             vt_pointer = pointer,
             vt_typeScopeId = get element ''valueType-typeScope'',
             vt_typeScope = None,
             vt_originalTypeName = get element ''valueType-originalTypeName'' \<rparr>)))"

subsection \<open>Token\<close>

record token =
  tk_Id :: "string option"
  tk_str :: "string option"
  tk_next :: "pyref option"
  tk_previous :: "pyref option"
  tk_scopeId :: "string option"
  tk_scope :: "pyref option"
  tk_isName :: bool
  tk_isUnsigned :: bool
  tk_isSigned :: bool
  tk_isNumber :: bool
  tk_isInt :: bool
  tk_isFloat :: bool
  tk_isString :: bool
  tk_strlen :: "int option"
  tk_isChar :: bool
  tk_isOp :: bool
  tk_isArithmeticalOp :: bool
  tk_isAssignmentOp :: bool
  tk_isComparisonOp :: bool
  tk_isLogicalOp :: bool
  tk_isExpandedMacro :: bool
  tk_linkId :: "string option"
  tk_link :: "pyref option"
  tk_varId :: "int option"
  tk_variableId :: "string option"
  tk_variable :: "pyref option"
  tk_functionId :: "string option"
  tk_function :: "pyref option"
  tk_valuesId :: "string option"
  tk_values :: "pyref option"
  tk_valueType :: "valuetype option"
  tk_typeScopeId :: "string option"
  tk_typeScope :: "pyref option"
  tk_astParentId :: "string option"
  tk_astParent :: "pyref option"
  tk_astOperand1Id :: "string option"
  tk_astOperand1 :: "pyref option"
  tk_astOperand2Id :: "string option"
  tk_astOperand2 :: "pyref option"
  tk_file :: "string option"
  tk_linenr :: int
  tk_column :: int

definition Token_init :: "element \<Rightarrow> error + token" where
  "Token_init element =
    (let type = get element ''type'';
         arith = truthy (get element ''isArithmeticalOp'');
         assign = truthy (get element ''isAssignmentOp'');
         compar = truthy (get element ''isComparisonOp'');
         logical = truthy (get element ''isLogicalOp'')
     in
     ebind (if type = Some ''string''
            then ebind (int_attr (get element ''strlen'')) (\<lambda>n. Inr (Some n))
            else Inr None) (\<lambda>strlen.
     ebind (if truthy (get element ''varId'')
            then ebind (int_attr (get element ''varId'')) (\<lambda>n. Inr (Some n))
            else Inr None) (\<lambda>varId.
     ebind (if truthy (get element ''valueType-type'')
            then ebind (ValueType_init element) (\<lambda>vt. Inr (Some vt))
            else Inr None) (\<lambda>valueType.
     ebind (int_attr (get element ''linenr'')) (\<lambda>linenr.
     ebind (int_attr (get element ''column'')) (\<lambda>column.
       Inr \<lparr> tk_Id = get element ''id'',
             tk_str = get element ''str'',
             tk_next = None,
             tk_previous = None,
             tk_scopeId = get element ''scope'',
             tk_scope = None,
             tk_isName = (type = Some ''name''),
             tk_isUnsigned = (type = Some ''name'' \<and> truthy (get element ''isUnsigned'')),
             tk_isSigned = (type = Some ''name'' \<and> truthy (get element ''isSigned'')),
             tk_isNumber = (type = Some ''number''),
             tk_isInt = (type = Some ''number'' \<and> truthy (get element ''isInt'')),
             tk_isFloat = (type = Some ''number'' \<and> \<not> truthy (get element ''isInt'')
                             \<and> truthy (get element ''isFloat'')),
             tk_isString = (type = Some ''string''),
             tk_strlen = strlen,
             tk_isChar = (type = Some ''char''),
             tk_isOp = (type = Some ''op''),
             tk_isArithmeticalOp = (type = Some ''op'' \<and> arith),
             tk_isAssignmentOp = (type = Some ''op'' \<and> \<not> arith \<and> assign),
             tk_isComparisonOp = (type = Some ''op'' \<and> \<not> arith \<and> \<not> assign \<and> compar),
             tk_isLogicalOp =
               (type = Some ''op'' \<and> \<not> arith \<and> \<not> assign \<and> \<not> compar \<and> logical),
             tk_isExpandedMacro = truthy (get element ''isExpandedMacro''),
             tk_linkId = get element ''link'',
             tk_link = None,
             tk_varId = varId,
             tk_variableId = get element ''variable'',
             tk_variable = None,
             tk_functionId = get element ''function'',
             tk_function = None,
             tk_valuesId = get element ''values'',
             tk_values = None,
             tk_valueType = valueType,
             tk_typeScopeId = get element ''type-scope'',
             tk_typeScope = None,
             tk_astParentId = get element ''astParent'',
             tk_astParent = None,
             tk_astOperand1Id = get element ''astOperand1'',
             tk_astOperand1 = None,
             tk_astOperand2Id = get element ''astOperand2'',
             tk_astOperand2 = None,
             tk_file = get element ''file'',
             tk_linenr = linenr,
             tk_column = column \<rparr>))))))"

subsection \<open>Scope\<close>

record scope =
  sc_Id :: "string option"
  sc_className :: "string option"
  sc_functionId :: "string option"
  sc_function :: "pyref option"
  sc_bodyStartId :: "string option"
  sc_bodyStart :: "pyref option"
  sc_bodyEndId :: "string option"
  sc_bodyEnd :: "pyref option"
  sc_nestedInId :: "string option"
  sc_nestedIn :: "pyref option"
  sc_type :: "string option"
  sc_isExecutable :: bool

definition Scope_init :: "element \<Rightarrow> scope" where
  "Scope_init element =
     \<lparr> sc_Id = get element ''id'',
       sc_className = get element ''className'',
       sc_functionId = get element ''function'',
       sc_function = None,
       sc_bodyStartId = get element ''bodyStart'',
       sc_bodyStart = None,
       sc_bodyEndId = get element ''bodyEnd'',
       sc_bodyEnd = None,
       sc_nestedInId = get element ''nestedIn'',
       sc_nestedIn = None,
       sc_type = get element ''type'',
       sc_isExecutable =
         (get element ''type'' \<in> set (map Some
            [''Function'', ''If'', ''Else'', ''For'', ''While'', ''Do'', ''Switch'',
             ''Try'', ''Catch'', ''Unconditional'', ''Lambda''])) \<rparr>"

subsection \<open>Function\<close>

text \<open>
  The value of \<^verbatim>\<open>x and x == 'true'\<close>: the operand itself when it is None or empty,
  otherwise the result of the comparison.
\<close>

datatype pyflag = Falsy "string option" | Flag bool

definition and_is_true :: "string option \<Rightarrow> pyflag" where
  "and_is_true a = (if truthy a then Flag (a = Some ''true'') else Falsy a)"

text \<open>
  The two dictionaries of a Function are insertion-ordered with distinct keys: the
  argument number maps to the variable's identifier (\<open>argumentId\<close>) and, once resolved,
  to the variable (\<open>argument\<close>).
\<close>

record func =
  fn_Id :: "string option"
  fn_tokenDefId :: "string option"
  fn_tokenDef :: "pyref option"
  fn_name :: "string option"
  fn_type :: "string option"
  fn_isVirtual :: pyflag
  fn_isImplicitlyVirtual :: pyflag
  fn_isStatic :: pyflag
  fn_argument :: "(int, pyref option) alist"
  fn_argumentId :: "(int, string option) alist"

definition Function_init :: "element \<Rightarrow> func" where
  "Function_init element =
     \<lparr> fn_Id = get element ''id'',
       fn_tokenDefId = get element ''tokenDef'',
       fn_tokenDef = None,
       fn_name = get element ''name'',
       fn_type = get element ''type'',
       fn_isVirtual = and_is_true (get element ''isVirtual''),
       fn_isImplicitlyVirtual = and_is_true (get element ''isImplicitlyVirtual''),
       fn_isStatic = and_is_true (get element ''isStatic''),
       fn_argument = DAList.empty,
       fn_argumentId = DAList.empty \<rparr>"

subsection \<open>Variable\<close>

record variable =
  var_Id :: "string option"
  var_nameTokenId :: "string option"
  var_nameToken :: "pyref option"
  var_typeStartTokenId :: "string option"
  var_typeStartToken :: "pyref option"
  var_typeEndTokenId :: "string option"
  var_typeEndToken :: "pyref option"
  var_access :: "string option"
  var_scopeId :: "string option"
  var_scope :: "pyref option"
  var_isArgument :: bool
  var_isArray :: bool
  var_isClass :: bool
  var_isConst :: bool
  var_isGlobal :: bool
  var_isExtern :: bool
  var_isLocal :: bool
  var_isPointer :: bool
  var_isReference :: bool
  var_isStatic :: bool
  var_constness :: pyval

definition Variable_init :: "element \<Rightarrow> error + variable" where
  "Variable_init element =
     ebind (int_if_truthy (get element ''constness'')) (\<lambda>constness.
       Inr \<lparr> var_Id = get element ''id'',
             var_nameTokenId = get element ''nameToken'',
             var_nameToken = None,
             var_typeStartTokenId = get element ''typeStartToken'',
             var_typeStartToken = None,
             var_typeEndTokenId = get element ''typeEndToken'',
             var_typeEndToken = None,
             var_access = get element ''access'',
             var_scopeId = get element ''scope'',
             var_scope = None,
             var_isArgument = (get element ''isArgument'' = Some ''true''),
             var_isArray = (get element ''isArray'' = Some ''true''),
             var_isClass = (get element ''isClass'' = Some ''true''),
             var_isConst = (get element ''isConst'' = Some ''true''),
             var_isGlobal = (get element ''access'' = Some ''Global''),
             var_isExtern = (get element ''isExtern'' = Some ''true''),
             var_isLocal = (get element ''isLocal'' = Some ''true''),
             var_isPointer = (get element ''isPointer'' = Some ''true''),
             var_isReference = (get element ''isReference'' = Some ''true''),
             var_isStatic = (get element ''isStatic'' = Some ''true''),
             var_constness = constness \<rparr>)"

subsection \<open>ValueFlow, Directive, Suppression, Platform, Standards\<close>

record valueflow =
  vf_Id :: "string option"
  vf_values :: "value list"

definition ValueFlow_init :: "element \<Rightarrow> valueflow" where
  "ValueFlow_init element = \<lparr> vf_Id = get element ''id'', vf_values = [] \<rparr>"

record directive =
  dir_str :: "string option"
  dir_file :: "string option"
  dir_linenr :: int
  dir_column :: int

definition Directive_init :: "element \<Rightarrow> error + directive" where
  "Directive_init element =
     ebind (int_attr (get element ''linenr'')) (\<lambda>linenr.
       Inr \<lparr> dir_str = get element ''str'',
             dir_file = get element ''file'',
             dir_linenr = linenr,
             dir_column = 0 \<rparr>)"

record suppression =
  sup_errorId :: "string option"
  sup_fileName :: "string option"
  sup_lineNumber :: "string option"
  sup_symbolName :: "string option"

definition Suppression_init :: "element \<Rightarrow> suppression" where
  "Suppression_init element =
     \<lparr> sup_errorId = get element ''errorId'',
       sup_fileName = get element ''fileName'',
       sup_lineNumber = get element ''lineNumber'',
       sup_symbolName = get element ''symbolName'' \<rparr>"

record platform =
  pf_name :: "string option"
  pf_char_bit :: int
  pf_short_bit :: int
  pf_int_bit :: int
  pf_long_bit :: int
  pf_long_long_bit :: int
  pf_pointer_bit :: int

definition Platform_init :: "element \<Rightarrow> error + platform" where
  "Platform_init platformnode =
     ebind (int_attr (get platformnode ''char_bit'')) (\<lambda>char_bit.
     ebind (int_attr (get platformnode ''short_bit'')) (\<lambda>short_bit.
     ebind (int_attr (get platformnode ''int_bit'')) (\<lambda>int_bit.
     ebind (int_attr (get platformnode ''long_bit'')) (\<lambda>long_bit.
     ebind (int_attr (get platformnode ''long_long_bit'')) (\<lambda>long_long_bit.
     ebind (int_attr (get platformnode ''pointer_bit'')) (\<lambda>pointer_bit.
       Inr \<lparr> pf_name = get platformnode ''name'',
             pf_char_bit = char_bit,
             pf_short_bit = short_bit,
             pf_int_bit = int_bit,
             pf_long_bit = long_bit,
             pf_long_long_bit = long_long_bit,
             pf_pointer_bit = pointer_bit \<rparr>))))))"

record standards =
  std_c :: "string option"
  std_cpp :: "string option"
  std_posix :: bool

text \<open>
  \<^verbatim>\<open>standardsnode.find("c").get("version")\<close> raises AttributeError when there is no
  such child.
\<close>

definition Standards_init :: "element \<Rightarrow> error + standards" where
  "Standards_init standardsnode =
     (case find_child standardsnode ''c'' of
        None \<Rightarrow> Inl AttributeError
      | Some c \<Rightarrow>
          (case find_child standardsnode ''cpp'' of
             None \<Rightarrow> Inl AttributeError
           | Some cpp \<Rightarrow>
               Inr \<lparr> std_c = get c ''version'',
                     std_cpp = get cpp ''version'',
                     std_posix = (find_child standardsnode ''posix'' \<noteq> None) \<rparr>))"

section \<open>Configuration\<close>

text \<open>
  A configuration owns its lists (\<open>functionlist\<close> is the list \<^verbatim>\<open>functions\<close> of the
  source). \<open>functionlist\<close> and \<open>valueflow\<close> may hold None: the
  reader appends whatever its current function (value list) is when the element closes.
  \<open>standards\<close> is None until the \<^verbatim>\<open>standards\<close> element has been read (the source
  starts with an empty list there).
\<close>

record configuration =
  cfg_name :: "string option"
  directives :: "directive list"
  tokenlist :: "token list"
  scopes :: "scope list"
  functionlist :: "func option list"
  variables :: "variable list"
  valueflow :: "valueflow option list"
  standards :: "standards option"

definition Configuration_init :: "string option \<Rightarrow> configuration" where
  "Configuration_init name =
     \<lparr> cfg_name = name, directives = [], tokenlist = [], scopes = [], functionlist = [],
       variables = [], valueflow = [], standards = None \<rparr>"

section \<open>Linking and identifier resolution\<close>

subsection \<open>\<^verbatim>\<open>Configuration.set_tokens_links\<close>\<close>

text \<open>
  The loop walks the token list by position; \<open>prev\<close> is the position of the token
  seen before, None at the start. A Token object is always true in \<^verbatim>\<open>if prev:\<close>.
\<close>

fun links_loop :: "nat list \<Rightarrow> nat option \<Rightarrow> token list \<Rightarrow> token list" where
  "links_loop [] prev ts = ts"
| "links_loop (i # js) prev ts =
     (let ts1 = ts[i := (ts ! i)\<lparr>tk_previous := map_option TokenRef prev\<rparr>];
          ts2 = (case prev of
                   None \<Rightarrow> ts1
                 | Some p \<Rightarrow> ts1[p := (ts1 ! p)\<lparr>tk_next := Some (TokenRef i)\<rparr>])
      in links_loop js (Some i) ts2)"

definition set_tokens_links :: "configuration \<Rightarrow> configuration" where
  "set_tokens_links c =
     c\<lparr>tokenlist := links_loop [0..<length (tokenlist c)] None (tokenlist c)\<rparr>"

subsection \<open>The lookup table\<close>

text \<open>
  \<open>IdMap\<close> maps an identifier (None for an absent attribute) to None or a reference.
  A key that is not in the table maps to \<open>None\<close> at the level of the map, and
  \<open>getitem\<close> (the source's \<^verbatim>\<open>IdMap[key]\<close>) raises KeyError for it.
\<close>

type_synonym idmap = "string option \<Rightarrow> pyref option option"

definition IdMap_init :: idmap where
  "IdMap_init =
     [None \<mapsto> None, Some ''0'' \<mapsto> None, Some ''00000000'' \<mapsto> None,
      Some ''0000000000000000'' \<mapsto> None]"

definition getitem :: "idmap \<Rightarrow> string option \<Rightarrow> error + pyref option" where
  "getitem IdMap k = (case IdMap k of None \<Rightarrow> Inl (KeyError k) | Some r \<Rightarrow> Inr r)"

text \<open>
  \<^verbatim>\<open>for x in xs: IdMap[x.Id] = x\<close>, for the list whose references \<open>mk\<close> builds; reading
  \<^verbatim>\<open>x.Id\<close> raises AttributeError when \<open>x\<close> is None.
\<close>

fun add_ids ::
  "(nat \<Rightarrow> pyref) \<Rightarrow> ('a \<Rightarrow> error + string option) \<Rightarrow> nat \<Rightarrow> 'a list \<Rightarrow> idmap \<Rightarrow> error + idmap"
where
  "add_ids mk id_of i [] IdMap = Inr IdMap"
| "add_ids mk id_of i (x # xs) IdMap =
     (case id_of x of
        Inl e \<Rightarrow> Inl e
      | Inr k \<Rightarrow> add_ids mk id_of (Suc i) xs (IdMap(k \<mapsto> Some (mk i))))"

definition attr_of :: "('a \<Rightarrow> 'b) \<Rightarrow> 'a option \<Rightarrow> error + 'b" where
  "attr_of f x = (case x of None \<Rightarrow> Inl AttributeError | Some y \<Rightarrow> Inr (f y))"

definition IdMap_of :: "configuration \<Rightarrow> variable list \<Rightarrow> error + idmap" where
  "IdMap_of c arguments =
     ebind (add_ids TokenRef (\<lambda>t. Inr (tk_Id t)) 0 (tokenlist c) IdMap_init) (\<lambda>m1.
     ebind (add_ids ScopeRef (\<lambda>s. Inr (sc_Id s)) 0 (scopes c) m1) (\<lambda>m2.
     ebind (add_ids FunctionRef (attr_of fn_Id) 0 (functionlist c) m2) (\<lambda>m3.
     ebind (add_ids VariableRef (\<lambda>v. Inr (var_Id v)) 0 (variables c) m3) (\<lambda>m4.
     ebind (add_ids ArgumentRef (\<lambda>v. Inr (var_Id v)) 0 arguments m4) (\<lambda>m5.
       add_ids ValuesRef (attr_of vf_Id) 0 (valueflow c) m5)))))"

subsection \<open>The \<^verbatim>\<open>setId\<close> methods\<close>

definition ValueType_setId :: "idmap \<Rightarrow> valuetype \<Rightarrow> error + valuetype" where
  "ValueType_setId IdMap vt =
     ebind (getitem IdMap (vt_typeScopeId vt)) (\<lambda>typeScope.
       Inr (vt\<lparr>vt_typeScope := typeScope\<rparr>))"

definition Token_setId :: "idmap \<Rightarrow> token \<Rightarrow> error + token" where
  "Token_setId IdMap t =
     ebind (getitem IdMap (tk_scopeId t)) (\<lambda>scope.
     ebind (getitem IdMap (tk_linkId t)) (\<lambda>link.
     ebind (getitem IdMap (tk_variableId t)) (\<lambda>variable.
     ebind (getitem IdMap (tk_functionId t)) (\<lambda>function.
     ebind (getitem IdMap (tk_valuesId t)) (\<lambda>values.
     ebind (getitem IdMap (tk_typeScopeId t)) (\<lambda>typeScope.
     ebind (getitem IdMap (tk_astParentId t)) (\<lambda>astParent.
     ebind (getitem IdMap (tk_astOperand1Id t)) (\<lambda>astOperand1.
     ebind (getitem IdMap (tk_astOperand2Id t)) (\<lambda>astOperand2.
     ebind (case tk_valueType t of
              None \<Rightarrow> Inr None
            | Some vt \<Rightarrow> ebind (ValueType_setId IdMap vt) (\<lambda>vt'. Inr (Some vt')))
       (\<lambda>valueType.
       Inr (t\<lparr>tk_scope := scope, tk_link := link, tk_variable := variable,
              tk_function := function, tk_values := values, tk_typeScope := typeScope,
              tk_astParent := astParent, tk_astOperand1 := astOperand1,
              tk_astOperand2 := astOperand2, tk_valueType := valueType\<rparr>)))))))))))"

definition Scope_setId :: "idmap \<Rightarrow> scope \<Rightarrow> error + scope" where
  "Scope_setId IdMap s =
     ebind (getitem IdMap (sc_bodyStartId s)) (\<lambda>bodyStart.
     ebind (getitem IdMap (sc_bodyEndId s)) (\<lambda>bodyEnd.
     ebind (getitem IdMap (sc_nestedInId s)) (\<lambda>nestedIn.
     ebind (getitem IdMap (sc_functionId s)) (\<lambda>function.
       Inr (s\<lparr>sc_bodyStart := bodyStart, sc_bodyEnd := bodyEnd, sc_nestedIn := nestedIn,
              sc_function := function\<rparr>)))))"

text \<open>\<^verbatim>\<open>for argnr, argid in self.argumentId.items(): self.argument[argnr] = IdMap[argid]\<close>\<close>

fun set_arguments ::
  "idmap \<Rightarrow> (int \<times> string option) list \<Rightarrow> (int, pyref option) alist
     \<Rightarrow> error + (int, pyref option) alist"
where
  "set_arguments IdMap [] argument = Inr argument"
| "set_arguments IdMap ((argnr, argid) # items) argument =
     (case getitem IdMap argid of
        Inl e \<Rightarrow> Inl e
      | Inr v \<Rightarrow> set_arguments IdMap items (DAList.update argnr v argument))"

definition Function_setId :: "idmap \<Rightarrow> func \<Rightarrow> error + func" where
  "Function_setId IdMap f =
     ebind (set_arguments IdMap (DAList.impl_of (fn_argumentId f)) (fn_argument f))
       (\<lambda>argument.
     ebind (getitem IdMap (fn_tokenDefId f)) (\<lambda>tokenDef.
       Inr (f\<lparr>fn_argument := argument, fn_tokenDef := tokenDef\<rparr>)))"

definition Variable_setId :: "idmap \<Rightarrow> variable \<Rightarrow> error + variable" where
  "Variable_setId IdMap v =
     ebind (getitem IdMap (var_nameTokenId v)) (\<lambda>nameToken.
     ebind (getitem IdMap (var_typeStartTokenId v)) (\<lambda>typeStartToken.
     ebind (getitem IdMap (var_typeEndTokenId v)) (\<lambda>typeEndToken.
     ebind (getitem IdMap (var_scopeId v)) (\<lambda>scope.
       Inr (v\<lparr>var_nameToken := nameToken, var_typeStartToken := typeStartToken,
              var_typeEndToken := typeEndToken, var_scope := scope\<rparr>)))))"

subsection \<open>\<^verbatim>\<open>Configuration.set_id_map\<close> and \<^verbatim>\<open>Configuration.setIdMap\<close>\<close>

text \<open>\<^verbatim>\<open>for x in xs: x.setId(IdMap)\<close>: the first exception ends the loop.\<close>

fun for_each :: "('a \<Rightarrow> error + 'b) \<Rightarrow> 'a list \<Rightarrow> error + 'b list" where
  "for_each f [] = Inr []"
| "for_each f (x # xs) =
     (case f x of
        Inl e \<Rightarrow> Inl e
      | Inr y \<Rightarrow> (case for_each f xs of Inl e \<Rightarrow> Inl e | Inr ys \<Rightarrow> Inr (y # ys)))"

definition method_of :: "('a \<Rightarrow> error + 'a) \<Rightarrow> 'a option \<Rightarrow> error + 'a option" where
  "method_of f x =
     (case x of None \<Rightarrow> Inl AttributeError | Some y \<Rightarrow> ebind (f y) (\<lambda>y'. Inr (Some y')))"

text \<open>
  The result is the configuration together with the argument variables, both resolved.
  When a lookup raises, the exception is the result (the objects rewritten before it
  are not part of the result).
\<close>

definition set_id_map ::
  "configuration \<Rightarrow> variable list \<Rightarrow> error + configuration \<times> variable list"
where
  "set_id_map c arguments =
     ebind (IdMap_of c arguments) (\<lambda>IdMap.
     ebind (for_each (Token_setId IdMap) (tokenlist c)) (\<lambda>tokens.
     ebind (for_each (Scope_setId IdMap) (scopes c)) (\<lambda>scopes'.
     ebind (for_each (method_of (Function_setId IdMap)) (functionlist c)) (\<lambda>functions.
     ebind (for_each (Variable_setId IdMap) (variables c)) (\<lambda>variables'.
     ebind (for_each (Variable_setId IdMap) arguments) (\<lambda>arguments'.
       Inr (c\<lparr>tokenlist := tokens, scopes := scopes', functionlist := functions,
              variables := variables'\<rparr>, arguments')))))))"

definition setIdMap ::
  "configuration \<Rightarrow> variable list \<Rightarrow> error + configuration \<times> variable list"
where
  "setIdMap c functions_arguments = set_id_map (set_tokens_links c) functions_arguments"

section \<open>The configuration reader\<close>

subsection \<open>\<^verbatim>\<open>CppcheckData.iterconfigurations\<close>\<close>

text \<open>
  The reader consumes the events of \<^verbatim>\<open>ElementTree.iterparse\<close>: each is \<^verbatim>\<open>start\<close> or
  \<^verbatim>\<open>end\<close> with the element as the loop body sees it. \<^verbatim>\<open>node.clear()\<close> changes only
  what later events of the parser's tree show, which is part of the input here.
  The state of the generator is its local variables.
\<close>

datatype event = Start | End

record iter_state =
  cfg :: "configuration option"
  cfg_arguments :: "variable list"
  cfg_function :: "func option"
  cfg_valueflow :: "valueflow option"
  iter_varlist :: bool

text \<open>
  A statement that reads an attribute of \<^verbatim>\<open>cfg\<close> raises AttributeError while no
  configuration is open.
\<close>

definition on_cfg ::
  "iter_state \<Rightarrow> (configuration \<Rightarrow> error + configuration) \<Rightarrow> error + iter_state"
where
  "on_cfg s f =
     (case cfg s of
        None \<Rightarrow> Inl AttributeError
      | Some c \<Rightarrow> ebind (f c) (\<lambda>c'. Inr (s\<lparr>cfg := Some c'\<rparr>)))"

text \<open>
  One pass of the loop body: the new state, and the configuration (with its resolved
  argument variables) when the pass yields one.
\<close>

definition step ::
  "event \<times> element \<Rightarrow> iter_state
     \<Rightarrow> error + iter_state \<times> (configuration \<times> variable list) option"
where
  "step en s =
    (let event = fst en; node = snd en; go = (\<lambda>s'. Inr (s', None)) in
     if tag node = ''dump'' then
       (if event = Start then
          go (s\<lparr>cfg := Some (Configuration_init (get node ''cfg''))\<rparr>)
        else
          (case cfg s of
             None \<Rightarrow> Inl AttributeError
           | Some c \<Rightarrow>
               ebind (setIdMap c (cfg_arguments s)) (\<lambda>resolved.
                 Inr (s\<lparr>cfg := None, cfg_arguments := []\<rparr>, Some resolved))))
     else if tag node = ''standards'' \<and> event = Start then go s
     else if tag node = ''standards'' \<and> event = End then
       ebind (Standards_init node) (\<lambda>sd.
       ebind (on_cfg s (\<lambda>c. Inr (c\<lparr>standards := Some sd\<rparr>))) go)
     else if tag node = ''directive'' \<and> event = Start then
       ebind (on_cfg s (\<lambda>c.
         ebind (Directive_init node) (\<lambda>d. Inr (c\<lparr>directives := directives c @ [d]\<rparr>)))) go
     else if tag node = ''tokenlist'' \<and> event = Start then go s
     else if tag node = ''token'' \<and> event = Start then
       ebind (on_cfg s (\<lambda>c.
         ebind (Token_init node) (\<lambda>t. Inr (c\<lparr>tokenlist := tokenlist c @ [t]\<rparr>)))) go
     else if tag node = ''scopes'' \<and> event = Start then go s
     else if tag node = ''scope'' \<and> event = Start then
       ebind (on_cfg s (\<lambda>c. Inr (c\<lparr>scopes := scopes c @ [Scope_init node]\<rparr>))) go
     else if tag node = ''varlist'' then
       (if event = Start then go (s\<lparr>iter_varlist := True\<rparr>)
        else go (s\<lparr>iter_varlist := False\<rparr>))
     else if tag node = ''functionList'' \<and> event = Start then go s
     else if tag node = ''function'' then
       (if event = Start then go (s\<lparr>cfg_function := Some (Function_init node)\<rparr>)
        else
          ebind (on_cfg s (\<lambda>c. Inr (c\<lparr>functionlist := functionlist c @ [cfg_function s]\<rparr>)))
            (\<lambda>s'. go (s'\<lparr>cfg_function := None\<rparr>)))
     else if tag node = ''arg'' \<and> event = Start then
       ebind (int_attr (get node ''nr'')) (\<lambda>arg_nr.
         (case cfg_function s of
            None \<Rightarrow> Inl AttributeError
          | Some f \<Rightarrow>
              go (s\<lparr>cfg_function :=
                      Some (f\<lparr>fn_argumentId :=
                                DAList.update arg_nr (get node ''variable'')
                                  (fn_argumentId f)\<rparr>)\<rparr>)))
     else if tag node = ''var'' \<and> event = Start then
       ebind (Variable_init node) (\<lambda>var.
         if truthy (var_nameTokenId var) then
           ebind (on_cfg s (\<lambda>c. Inr (c\<lparr>variables := variables c @ [var]\<rparr>))) go
         else if \<not> iter_varlist s then
           go (s\<lparr>cfg_arguments := cfg_arguments s @ [var]\<rparr>)
         else go s)
     else if tag node = ''valueflow'' \<and> event = Start then go s
     else if tag node = ''values'' then
       (if event = Start then go (s\<lparr>cfg_valueflow := Some (ValueFlow_init node)\<rparr>)
        else
          ebind (on_cfg s (\<lambda>c. Inr (c\<lparr>valueflow := valueflow c @ [cfg_valueflow s]\<rparr>)))
            (\<lambda>s'. go (s'\<lparr>cfg_valueflow := None\<rparr>)))
     else if tag node = ''value'' \<and> event = Start then
       (case cfg_valueflow s of
          None \<Rightarrow> Inl AttributeError
        | Some vf \<Rightarrow>
            ebind (Value_init node) (\<lambda>v.
              go (s\<lparr>cfg_valueflow := Some (vf\<lparr>vf_values := vf_values vf @ [v]\<rparr>)\<rparr>)))
     else go s)"

text \<open>
  The generator: the configurations yielded, in order, and the exception that ended the
  iteration, if one did.
\<close>

fun run ::
  "(event \<times> element) list \<Rightarrow> iter_state
     \<Rightarrow> (configuration \<times> variable list) list \<times> error option"
where
  "run [] s = ([], None)"
| "run (en # ens) s =
     (case step en s of
        Inl e \<Rightarrow> ([], Some e)
      | Inr (s', y) \<Rightarrow>
          (case run ens s' of
             (ys, r) \<Rightarrow> ((case y of None \<Rightarrow> [] | Some resolved \<Rightarrow> [resolved]) @ ys, r)))"

definition iter_init :: iter_state where
  "iter_init =
     \<lparr> cfg = None, cfg_arguments = [], cfg_function = None, cfg_valueflow = None,
       iter_varlist = False \<rparr>"

definition iterconfigurations ::
  "(event \<times> element) list \<Rightarrow> (configuration \<times> variable list) list \<times> error option"
where
  "iterconfigurations events = run events iter_init"

subsection \<open>\<^verbatim>\<open>CppcheckData.__init__\<close>\<close>

text \<open>
  \<^verbatim>\<open>rawTokens\<close> and \<^verbatim>\<open>suppressions\<close> are attributes of the class: the constructor
  never binds them on the instance, so \<^verbatim>\<open>self.rawTokens.append\<close> appends to the one
  list of the class. The state of the class is therefore an argument and a result of the
  constructor, also when it raises. \<open>TokenRef i\<close> in a raw token is a position in
  \<open>rawTokens\<close>.
\<close>

record cppcheckdata_class =
  rawTokens :: "token list"
  suppressions :: "suppression list"

record cppcheckdata =
  cd_filename :: string
  cd_platform :: "platform option"

record scan_state =
  files :: "string option list"
  platform_done :: bool
  rawtokens_done :: bool
  suppressions_done :: bool
  self_platform :: "platform option"
  self_rawTokens :: "token list"
  self_suppressions :: "suppression list"

text \<open>\<^verbatim>\<open>xs[i]\<close> on a list: a negative index counts from the end.\<close>

definition py_index :: "'a list \<Rightarrow> int \<Rightarrow> error + 'a" where
  "py_index xs i =
     (if 0 \<le> i \<and> i < int (length xs) then Inr (xs ! nat i)
      else if i < 0 \<and> - int (length xs) \<le> i then Inr (xs ! nat (int (length xs) + i))
      else Inl IndexError)"

fun rawtokens_loop ::
  "element list \<Rightarrow> scan_state \<Rightarrow> scan_state \<times> error option"
where
  "rawtokens_loop [] s = (s, None)"
| "rawtokens_loop (rawtokens_node # nodes) s =
     (if tag rawtokens_node = ''file'' then
        rawtokens_loop nodes (s\<lparr>files := files s @ [get rawtokens_node ''name'']\<rparr>)
      else if tag rawtokens_node = ''tok'' then
        (case ebind (Token_init rawtokens_node) (\<lambda>tok.
              ebind (int_attr (get rawtokens_node ''fileIndex'')) (\<lambda>i.
              ebind (py_index (files s) i) (\<lambda>f. Inr (tok\<lparr>tk_file := f\<rparr>)))) of
           Inl e \<Rightarrow> (s, Some e)
         | Inr tok \<Rightarrow>
             rawtokens_loop nodes (s\<lparr>self_rawTokens := self_rawTokens s @ [tok]\<rparr>))
      else rawtokens_loop nodes s)"

fun scan :: "(event \<times> element) list \<Rightarrow> scan_state \<Rightarrow> scan_state \<times> error option" where
  "scan [] s = (s, None)"
| "scan ((event, node) # events) s =
     (if platform_done s \<and> rawtokens_done s \<and> suppressions_done s then (s, None)
      else if tag node = ''platform'' \<and> event = Start then
        (case Platform_init node of
           Inl e \<Rightarrow> (s, Some e)
         | Inr p \<Rightarrow> scan events (s\<lparr>self_platform := Some p, platform_done := True\<rparr>))
      else if tag node = ''rawtokens'' \<and> event = End then
        (case rawtokens_loop (children node) s of
           (s', Some e) \<Rightarrow> (s', Some e)
         | (s', None) \<Rightarrow> scan events (s'\<lparr>rawtokens_done := True\<rparr>))
      else if tag node = ''suppressions'' \<and> event = End then
        scan events
          (s\<lparr>self_suppressions := self_suppressions s @ map Suppression_init (children node),
             suppressions_done := True\<rparr>)
      else scan events s)"

text \<open>
  \<^verbatim>\<open>for i in range(len(self.rawTokens)-1)\<close>: link each raw token to the one after it.
\<close>

fun raw_links :: "nat list \<Rightarrow> token list \<Rightarrow> token list" where
  "raw_links [] ts = ts"
| "raw_links (i # js) ts =
     (let ts1 = ts[Suc i := (ts ! Suc i)\<lparr>tk_previous := Some (TokenRef i)\<rparr>];
          ts2 = ts1[i := (ts1 ! i)\<lparr>tk_next := Some (TokenRef (Suc i))\<rparr>]
      in raw_links js ts2)"

definition CppcheckData_init ::
  "cppcheckdata_class \<Rightarrow> string \<Rightarrow> (event \<times> element) list
     \<Rightarrow> cppcheckdata_class \<times> (error + cppcheckdata)"
where
  "CppcheckData_init cls filename events =
     (case scan events
             \<lparr> files = [], platform_done = False, rawtokens_done = False,
               suppressions_done = False, self_platform = None,
               self_rawTokens = rawTokens cls, self_suppressions = suppressions cls \<rparr> of
        (s, Some e) \<Rightarrow>
          (\<lparr> rawTokens = self_rawTokens s, suppressions = self_suppressions s \<rparr>, Inl e)
      | (s, None) \<Rightarrow>
          (\<lparr> rawTokens =
               raw_links [0..<length (self_rawTokens s) - 1] (self_rawTokens s),
             suppressions = self_suppressions s \<rparr>,
           Inr \<lparr> cd_filename = filename, cd_platform = self_platform s \<rparr>))"

text \<open>The class as the module defines it: both lists empty.\<close>

definition CppcheckData_class :: cppcheckdata_class where
  "CppcheckData_class = \<lparr> rawTokens = [], suppressions = [] \<rparr>"

section \<open>Argument lists of function calls\<close>

text \<open>
  \<^verbatim>\<open>tok.str\<close> needs a Token: a Scope, Function or Variable object and a value list have
  no attribute \<^verbatim>\<open>str\<close>. (A position beyond the token list is not an object of the
  configuration; the model raises for it as well.)
\<close>

definition token_at :: "configuration \<Rightarrow> pyref \<Rightarrow> error + token" where
  "token_at c r =
     (case r of
        TokenRef i \<Rightarrow> if i < length (tokenlist c) then Inr (tokenlist c ! i) else Inl AttributeError
      | _ \<Rightarrow> Inl AttributeError)"

text \<open>
  The recursion follows the operand links of the tokens, so it ends only when the links
  below \<open>tok\<close> form a finite tree: the result is \<open>None\<close> when the function does not
  return (Python ends such a recursion with RecursionError).
\<close>

partial_function (option) getArgumentsRecursive ::
  "configuration \<Rightarrow> pyref option \<Rightarrow> pyref list \<Rightarrow> (error + pyref list) option"
where
  "getArgumentsRecursive c tok arguments =
     (case tok of
        None \<Rightarrow> Some (Inr arguments)
      | Some r \<Rightarrow>
          (case token_at c r of
             Inl e \<Rightarrow> Some (Inl e)
           | Inr t \<Rightarrow>
               if tk_str t = Some '','' then
                 Option.bind (getArgumentsRecursive c (tk_astOperand1 t) arguments)
                   (\<lambda>res. case res of
                      Inl e \<Rightarrow> Some (Inl e)
                    | Inr arguments1 \<Rightarrow>
                        getArgumentsRecursive c (tk_astOperand2 t) arguments1)
               else Some (Inr (arguments @ [r]))))"

text \<open>The result of \<^verbatim>\<open>getArguments\<close> is None or the list of arguments.\<close>

definition getArguments ::
  "configuration \<Rightarrow> token \<Rightarrow> (error + pyref list option) option"
where
  "getArguments c ftok =
     (if \<not> tk_isName ftok then Some (Inr None)
      else
        (case tk_next ftok of
           None \<Rightarrow> Some (Inr None)
         | Some r \<Rightarrow>
             (case token_at c r of
                Inl e \<Rightarrow> Some (Inl e)
              | Inr nxt \<Rightarrow>
                  if tk_str nxt \<noteq> Some ''('' then Some (Inr None)
                  else map_option (map_sum id Some)
                         (getArgumentsRecursive c (tk_astOperand2 nxt) []))))"

text \<open>
  The operand links below a reference form a finite tree of tokens: every comma token
  met has two such trees (or None) as operands, and every other object met is a token.
\<close>

inductive ast_finite :: "configuration \<Rightarrow> pyref option \<Rightarrow> bool" where
  ast_None: "ast_finite c None"
| ast_leaf: "token_at c r = Inr t \<Longrightarrow> tk_str t \<noteq> Some '','' \<Longrightarrow> ast_finite c (Some r)"
| ast_comma:
    "token_at c r = Inr t \<Longrightarrow> tk_str t = Some '','' \<Longrightarrow> ast_finite c (tk_astOperand1 t)
       \<Longrightarrow> ast_finite c (tk_astOperand2 t) \<Longrightarrow> ast_finite c (Some r)"

section \<open>Notions used in the statements\<close>

text \<open>
  The state of the generator after a list of events (None of them may raise).
\<close>

fun steps :: "(event \<times> element) list \<Rightarrow> iter_state \<Rightarrow> error + iter_state" where
  "steps [] s = Inr s"
| "steps (en # ens) s =
     (case step en s of Inl e \<Rightarrow> Inl e | Inr (s', y) \<Rightarrow> steps ens s')"

text \<open>
  The relational attributes of a record, each with what its reference field holds:
  the pair of the identifier read from the document and \<open>Some\<close> of the field's value.
  For the arguments of a function the field is the entry of \<^verbatim>\<open>argument\<close> at the
  argument's number, \<open>None\<close> while the dictionary has no such entry.
\<close>

definition token_links :: "token \<Rightarrow> (string option \<times> pyref option option) list" where
  "token_links t =
     [(tk_scopeId t, Some (tk_scope t)), (tk_linkId t, Some (tk_link t)),
      (tk_variableId t, Some (tk_variable t)), (tk_functionId t, Some (tk_function t)),
      (tk_valuesId t, Some (tk_values t)), (tk_typeScopeId t, Some (tk_typeScope t)),
      (tk_astParentId t, Some (tk_astParent t)),
      (tk_astOperand1Id t, Some (tk_astOperand1 t)),
      (tk_astOperand2Id t, Some (tk_astOperand2 t))]
     @ (case tk_valueType t of
          None \<Rightarrow> []
        | Some vt \<Rightarrow> [(vt_typeScopeId vt, Some (vt_typeScope vt))])"

definition scope_links :: "scope \<Rightarrow> (string option \<times> pyref option option) list" where
  "scope_links s =
     [(sc_bodyStartId s, Some (sc_bodyStart s)), (sc_bodyEndId s, Some (sc_bodyEnd s)),
      (sc_nestedInId s, Some (sc_nestedIn s)), (sc_functionId s, Some (sc_function s))]"

definition function_links :: "func \<Rightarrow> (string option \<times> pyref option option) list" where
  "function_links f =
     map (\<lambda>(argnr, argid). (argid, DAList.lookup (fn_argument f) argnr))
       (DAList.impl_of (fn_argumentId f))
     @ [(fn_tokenDefId f, Some (fn_tokenDef f))]"

definition variable_links :: "variable \<Rightarrow> (string option \<times> pyref option option) list" where
  "variable_links v =
     [(var_nameTokenId v, Some (var_nameToken v)),
      (var_typeStartTokenId v, Some (var_typeStartToken v)),
      (var_typeEndTokenId v, Some (var_typeEndToken v)),
      (var_scopeId v, Some (var_scope v))]"

definition links ::
  "configuration \<Rightarrow> variable list \<Rightarrow> (string option \<times> pyref option option) list"
where
  "links c arguments =
     concat (map token_links (tokenlist c)) @ concat (map scope_links (scopes c))
     @ concat (map (\<lambda>f. case f of None \<Rightarrow> [] | Some g \<Rightarrow> function_links g) (functionlist c))
     @ concat (map variable_links (variables c)) @ concat (map variable_links arguments)"

text \<open>The identifiers that mean "no reference", and the identifiers the records carry.\<close>

definition reserved_ids :: "string option list" where
  "reserved_ids = [None, Some ''0'', Some ''00000000'', Some ''0000000000000000'']"

definition issued_ids :: "configuration \<Rightarrow> variable list \<Rightarrow> string option list" where
  "issued_ids c arguments =
     map tk_Id (tokenlist c) @ map sc_Id (scopes c)
     @ concat (map (\<lambda>f. case f of None \<Rightarrow> [] | Some g \<Rightarrow> [fn_Id g]) (functionlist c))
     @ map var_Id (variables c) @ map var_Id arguments
     @ concat (map (\<lambda>f. case f of None \<Rightarrow> [] | Some g \<Rightarrow> [vf_Id g]) (valueflow c))"

text \<open>
  A token list is one doubly linked list, in the order of the list: the token after a
  token points back to it, the token before a token points forward to it, the first
  token has no predecessor and the last no successor, and the successor of each token
  but the last is the next token of the list.
\<close>

definition doubly_linked :: "token list \<Rightarrow> bool" where
  "doubly_linked ts \<longleftrightarrow>
     list_all (\<lambda>i.
        (case tk_next (ts ! i) of
           None \<Rightarrow> True
         | Some r \<Rightarrow>
             (case r of
                TokenRef j \<Rightarrow> j < length ts \<and> tk_previous (ts ! j) = Some (TokenRef i)
              | _ \<Rightarrow> False))
      \<and> (case tk_previous (ts ! i) of
           None \<Rightarrow> True
         | Some r \<Rightarrow>
             (case r of
                TokenRef j \<Rightarrow> j < length ts \<and> tk_next (ts ! j) = Some (TokenRef i)
              | _ \<Rightarrow> False))
      \<and> (if i = 0 then tk_previous (ts ! i) = None
          else tk_previous (ts ! i) = Some (TokenRef (i - 1)))
      \<and> (if Suc i = length ts then tk_next (ts ! i) = None
          else tk_next (ts ! i) = Some (TokenRef (Suc i))))
       [0..<length ts]"

section \<open>Example documents\<close>

text \<open>
  The events \<^verbatim>\<open>iterparse\<close> produces for a document: for each element its start, the
  events of its children, and its end.
\<close>

fun events_of :: "element \<Rightarrow> (event \<times> element) list" where
  "events_of (Element t a cs) =
     (Start, Element t a cs) # concat (map events_of cs) @ [(End, Element t a cs)]"

definition token_elem ::
  "string \<Rightarrow> string \<Rightarrow> string \<Rightarrow> (string \<times> string) list \<Rightarrow> element"
where
  "token_elem i s ty extra =
     Element ''token''
       ([(''id'', i), (''file'', ''a.c''), (''linenr'', ''3''), (''column'', ''1''),
         (''str'', s), (''type'', ty), (''scope'', ''s1'')] @ extra) []"

definition global_scope :: "element list \<Rightarrow> element" where
  "global_scope vars =
     Element ''scopes'' []
       [Element ''scope'' [(''id'', ''s1''), (''type'', ''Global'')]
          [Element ''varlist'' [] vars]]"

text \<open>
  A configuration with the call \<^verbatim>\<open>f ( a , b )\<close>. The function's \<^verbatim>\<open>arg\<close> element names
  the variable \<^verbatim>\<open>v1\<close>, whose \<^verbatim>\<open>var\<close> element (without a name token) comes later.
\<close>

definition call_tokens :: "element list" where
  "call_tokens =
     [token_elem ''t1'' ''f'' ''name'' [(''astParent'', ''t2''), (''function'', ''f1'')],
      token_elem ''t2'' ''('' ''op''
        [(''link'', ''t6''), (''astOperand1'', ''t1''), (''astOperand2'', ''t4'')],
      token_elem ''t3'' ''a'' ''name''
        [(''astParent'', ''t4''), (''variable'', ''v2''), (''varId'', ''1'')],
      token_elem ''t4'' '','' ''op''
        [(''astParent'', ''t2''), (''astOperand1'', ''t3''), (''astOperand2'', ''t5'')],
      token_elem ''t5'' ''b'' ''name''
        [(''astParent'', ''t4''), (''values'', ''vals1''), (''valueType-type'', ''int''),
         (''valueType-sign'', ''signed'')],
      token_elem ''t6'' '')'' ''op''
        [(''link'', ''t2''), (''astParent'', ''0''), (''variable'', ''0000000000000000'')]]"

definition call_dump :: element where
  "call_dump =
     Element ''dump'' [(''cfg'', [])]
       [Element ''directivelist'' []
          [Element ''directive''
             [(''file'', ''a.c''), (''linenr'', ''3''), (''str'', ''#define X 1'')] []],
        Element ''tokenlist'' [] call_tokens,
        global_scope [Element ''var'' [(''id'', ''v2'')] []],
        Element ''functionList'' []
          [Element ''function'' [(''id'', ''f1''), (''tokenDef'', ''t1''), (''name'', ''f'')]
             [Element ''arg'' [(''nr'', ''1''), (''variable'', ''v1'')] []]],
        Element ''variables'' []
          [Element ''var''
             [(''id'', ''v1''), (''typeStartToken'', ''t3''), (''typeEndToken'', ''t3''),
              (''scope'', ''s1''), (''isArgument'', ''true'')] [],
           Element ''var''
             [(''id'', ''v2''), (''nameToken'', ''t3''), (''typeStartToken'', ''t3''),
              (''typeEndToken'', ''t3''), (''scope'', ''s1''), (''constness'', ''0'')] []],
        Element ''valueflow'' []
          [Element ''values'' [(''id'', ''vals1'')]
             [Element ''value'' [(''intvalue'', ''5''), (''known'', ''true'')] [],
              Element ''value'' [(''intvalue'', ''7''), (''possible'', ''true'')] []]]]"

text \<open>
  The configuration and the argument variables the reader holds when all events of a
  \<^verbatim>\<open>dump\<close> element but its end have been read, and what it yields at the end.
\<close>

definition before_end :: "element \<Rightarrow> configuration \<times> variable list" where
  "before_end d =
     (case steps (butlast (events_of d)) iter_init of
        Inl e \<Rightarrow> (Configuration_init None, [])
      | Inr s \<Rightarrow>
          (case cfg s of
             None \<Rightarrow> (Configuration_init None, [])
           | Some c \<Rightarrow> (c, cfg_arguments s)))"

definition yielded :: "element \<Rightarrow> configuration \<times> variable list" where
  "yielded d =
     (case fst (iterconfigurations (events_of d)) of
        [] \<Rightarrow> (Configuration_init None, [])
      | y # ys \<Rightarrow> y)"

text \<open>A \<^verbatim>\<open>var\<close> element with a name token inside the \<^verbatim>\<open>varlist\<close> of a scope.\<close>

definition varlist_dump :: element where
  "varlist_dump =
     Element ''dump'' [(''cfg'', [])]
       [Element ''tokenlist'' [] [token_elem ''t1'' ''x'' ''name'' []],
        global_scope [Element ''var'' [(''id'', ''v1''), (''nameToken'', ''t1'')] []]]"

text \<open>A token whose own identifier is the reserved \<^verbatim>\<open>0\<close>.\<close>

definition zero_id_dump :: element where
  "zero_id_dump =
     Element ''dump'' [(''cfg'', [])]
       [Element ''tokenlist'' [] [token_elem ''0'' ''x'' ''name'' [(''link'', ''0'')]],
        global_scope []]"

text \<open>A token that names a scope the document does not have.\<close>

definition dangling_dump :: element where
  "dangling_dump =
     Element ''dump'' [(''cfg'', [])]
       [Element ''tokenlist'' []
          [Element ''token''
             [(''id'', ''t1''), (''file'', ''a.c''), (''linenr'', ''3''), (''column'', ''1''),
              (''str'', ''x''), (''type'', ''name''), (''scope'', ''s9'')] []]]"

text \<open>
  The call \<^verbatim>\<open>f ( , )\<close> with a comma token whose first operand is the comma itself.
\<close>

definition cyclic_dump :: element where
  "cyclic_dump =
     Element ''dump'' [(''cfg'', [])]
       [Element ''tokenlist'' []
          [token_elem ''t1'' ''f'' ''name'' [],
           token_elem ''t2'' ''('' ''op'' [(''astOperand1'', ''t1''), (''astOperand2'', ''t3'')],
           token_elem ''t3'' '','' ''op'' [(''astOperand1'', ''t3'')],
           token_elem ''t4'' '')'' ''op'' []],
        global_scope []]"

text \<open>The part of a document outside its configurations.\<close>

definition raw_document :: element where
  "raw_document =
     Element ''dumps'' []
       [Element ''platform''
          [(''name'', ''unix64''), (''char_bit'', ''8''), (''short_bit'', ''16''),
           (''int_bit'', ''32''), (''long_bit'', ''64''), (''long_long_bit'', ''64''),
           (''pointer_bit'', ''64'')] [],
        Element ''rawtokens'' []
          [Element ''file'' [(''index'', ''0''), (''name'', ''x.c'')] [],
           Element ''file'' [(''index'', ''1''), (''name'', ''y.c'')] [],
           Element ''tok''
             [(''fileIndex'', ''1''), (''linenr'', ''1''), (''column'', ''1''),
              (''str'', ''int'')] []],
        Element ''suppressions'' []
          [Element ''suppression'' [(''errorId'', ''unusedVariable'')] []]]"

text \<open>Two \<^verbatim>\<open>value\<close> elements.\<close>

definition value_known_5 :: element where
  "value_known_5 =
     Element ''value''
       [(''intvalue'', ''5''), (''known'', ''true''), (''condition-line'', ''12'')] []"

definition value_float :: element where
  "value_float =
     Element ''value'' [(''floatvalue'', ''1.5''), (''container-size'', ''3'')] []"

text \<open>
  A \<^verbatim>\<open>var\<close> element with a name token and one without, and the state of the reader
  inside a \<^verbatim>\<open>dump\<close> element, inside (\<open>True\<close>) or outside (\<open>False\<close>) a \<^verbatim>\<open>varlist\<close>.
\<close>

definition named_var :: element where
  "named_var = Element ''var'' [(''id'', ''v1''), (''nameToken'', ''t1'')] []"

definition plain_var :: element where
  "plain_var = Element ''var'' [(''id'', ''v2'')] []"

definition open_state :: "bool \<Rightarrow> iter_state" where
  "open_state inside =
     iter_init\<lparr>cfg := Some (Configuration_init (Some [])), iter_varlist := inside\<rparr>"

text \<open>The configurations read from the example documents.\<close>

definition call_cfg :: configuration where
  "call_cfg = fst (yielded call_dump)"

definition cyclic_cfg :: configuration where
  "cyclic_cfg = fst (yielded cyclic_dump)"

section \<open>The token list after linking, in closed form\<close>

text \<open>
  \<open>linked_from k ts\<close> is the token list when the loop of \<^verbatim>\<open>set_tokens_links\<close> has
  still to visit the positions from \<open>k\<close> on, seen from its end: the tokens from \<open>k\<close>
  on have got their predecessor, the tokens from \<open>k - 1\<close> on (but the last) their
  successor.
\<close>

definition linked_from :: "nat \<Rightarrow> token list \<Rightarrow> token list" where
  "linked_from k ts =
     map (\<lambda>i. (ts ! i)
        \<lparr>tk_previous :=
           (if i < k then tk_previous (ts ! i)
            else if i = 0 then None else Some (TokenRef (i - 1))),
         tk_next :=
           (if Suc i < length ts \<and> k \<le> Suc i then Some (TokenRef (Suc i))
            else tk_next (ts ! i))\<rparr>) [0..<length ts]"

section \<open>Basic facts\<close>

lemma ebind_eq_Inr: "ebind m f = Inr y \<longleftrightarrow> (\<exists>x. m = Inr x \<and> f x = Inr y)"
  by (cases m) auto

lemma ebind_eq_Inl: "ebind m f = Inl e \<longleftrightarrow> (m = Inl e \<or> (\<exists>x. m = Inr x \<and> f x = Inl e))"
  by (cases m) auto

lemma for_each_Inr:
  "for_each f xs = Inr ys \<longleftrightarrow> list_all2 (\<lambda>x y. f x = Inr y) xs ys"
proof (induction xs arbitrary: ys)
  case Nil
  then show ?case by auto
next
  case (Cons x xs)
  show ?case
    by (cases ys) (auto simp: Cons.IH[symmetric] split: sum.splits)
qed

section \<open>The Value builder\<close>

lemma int_if_truthy_Inr:
  "int_if_truthy a = Inr v \<Longrightarrow>
     (\<forall>s. a = Some s \<longrightarrow> s \<noteq> [] \<longrightarrow> (\<exists>n. py_int s = Some n \<and> v = PyInt n)) \<and>
     (a = Some [] \<longrightarrow> v = PyStr []) \<and> (a = None \<longrightarrow> v = PyNone)"
  by (auto simp: int_if_truthy_def truthy_def int_attr_def str_or_none_def ebind_eq_Inr
      split: option.splits if_splits)

text \<open>
  C8, as the code has it. When the builder returns a Value, the integer payload and the
  line of the originating condition are integers whenever their attribute is present
  and not empty (\<^verbatim>\<open>int\<close> has parsed it). The float payload and the container size are
  the attribute strings as read (None when absent): they are never numbers.
\<close>

theorem Value_init_fields:
  assumes "Value_init element = Inr v"
  shows "(\<forall>s. get element ''intvalue'' = Some s \<longrightarrow> s \<noteq> [] \<longrightarrow>
            (\<exists>n. py_int s = Some n \<and> val_intvalue v = PyInt n))
       \<and> (\<forall>s. get element ''condition-line'' = Some s \<longrightarrow> s \<noteq> [] \<longrightarrow>
            (\<exists>n. py_int s = Some n \<and> val_condition v = PyInt n))
       \<and> val_floatvalue v = str_or_none (get element ''floatvalue'')
       \<and> val_containerSize v = str_or_none (get element ''container-size'')
       \<and> \<not> is_numeric (val_floatvalue v) \<and> \<not> is_numeric (val_containerSize v)"
proof -
  from assms obtain iv cv where
    iv: "int_if_truthy (get element ''intvalue'') = Inr iv" and
    cv: "int_if_truthy (get element ''condition-line'') = Inr cv" and
    v: "val_intvalue v = iv" "val_condition v = cv"
       "val_floatvalue v = str_or_none (get element ''floatvalue'')"
       "val_containerSize v = str_or_none (get element ''container-size'')"
    by (auto simp: Value_init_def ebind_eq_Inr)
  from int_if_truthy_Inr[OF iv] int_if_truthy_Inr[OF cv] v show ?thesis
    by (auto simp: is_numeric_def str_or_none_def split: option.splits)
qed

theorem Value_init_fields_witness:
  "Value_init value_known_5 =
     Inr \<lparr> val_intvalue = PyInt 5, val_tokvalue = None, val_floatvalue = PyNone,
           val_containerSize = PyNone, val_condition = PyInt 12,
           val_valueKind = Some ''known'', val_inconclusive = False \<rparr>
   \<and> get value_known_5 ''intvalue'' = Some ''5'' \<and> py_int ''5'' = Some 5
   \<and> get value_known_5 ''condition-line'' = Some ''12'' \<and> py_int ''12'' = Some 12"
proof -
  have h: "Value_init value_known_5 =
     Inr \<lparr> val_intvalue = PyInt 5, val_tokvalue = None, val_floatvalue = PyNone,
           val_containerSize = PyNone, val_condition = PyInt 12,
           val_valueKind = Some ''known'', val_inconclusive = False \<rparr>"
    by code_simp
  have g: "get value_known_5 ''intvalue'' = Some ''5''"
    "get value_known_5 ''condition-line'' = Some ''12''"
    by code_simp+
  from Value_init_fields[OF h] g h show ?thesis by auto
qed

text \<open>
  The claim fails for the float payload and the container size: both stay strings.
\<close>

theorem Value_init_float_counterexample:
  "(case Value_init value_float of
      Inl e \<Rightarrow> False
    | Inr v \<Rightarrow>
        get value_float ''floatvalue'' = Some ''1.5'' \<and> val_floatvalue v = PyStr ''1.5''
        \<and> \<not> is_numeric (val_floatvalue v)
        \<and> get value_float ''container-size'' = Some ''3'' \<and> val_containerSize v = PyStr ''3''
        \<and> \<not> is_numeric (val_containerSize v))"
  by code_simp

section \<open>Routing of \<^verbatim>\<open>var\<close> elements\<close>

lemma varlist_flag:
  assumes "tag node = ''varlist''"
  shows "step (Start, node) s = Inr (s\<lparr>iter_varlist := True\<rparr>, None)"
    and "step (End, node) s = Inr (s\<lparr>iter_varlist := False\<rparr>, None)"
  using assms by (simp_all add: step_def)

text \<open>
  C1, as the code has it. For a \<^verbatim>\<open>var\<close> element whose Variable is built: with a
  non-empty name-token identifier the Variable is appended to the variables of the open
  configuration, whether or not the reader is inside a \<^verbatim>\<open>varlist\<close>; without one it is
  appended to the function-argument variables when the reader is outside a \<^verbatim>\<open>varlist\<close>,
  and dropped when it is inside. The flag guards the argument list only.
\<close>

theorem var_routing:
  assumes "tag node = ''var''" and "Variable_init node = Inr var"
  shows "(truthy (var_nameTokenId var) \<longrightarrow> cfg s = Some c \<longrightarrow>
            step (Start, node) s =
              Inr (s\<lparr>cfg := Some (c\<lparr>variables := variables c @ [var]\<rparr>)\<rparr>, None))
       \<and> (\<not> truthy (var_nameTokenId var) \<longrightarrow> \<not> iter_varlist s \<longrightarrow>
            step (Start, node) s = Inr (s\<lparr>cfg_arguments := cfg_arguments s @ [var]\<rparr>, None))
       \<and> (\<not> truthy (var_nameTokenId var) \<longrightarrow> iter_varlist s \<longrightarrow>
            step (Start, node) s = Inr (s, None))"
  using assms by (simp add: step_def on_cfg_def)

theorem var_routing_witness:
  "(case Variable_init named_var of
      Inl e \<Rightarrow> False
    | Inr var \<Rightarrow>
        truthy (var_nameTokenId var)
        \<and> step (Start, named_var) (open_state False) =
            Inr ((open_state False)
                   \<lparr>cfg := Some ((Configuration_init (Some []))\<lparr>variables := [var]\<rparr>)\<rparr>, None))
   \<and> (case Variable_init plain_var of
      Inl e \<Rightarrow> False
    | Inr var \<Rightarrow>
        \<not> truthy (var_nameTokenId var)
        \<and> step (Start, plain_var) (open_state False) =
            Inr ((open_state False)\<lparr>cfg_arguments := [var]\<rparr>, None)
        \<and> step (Start, plain_var) (open_state True) = Inr (open_state True, None))"
proof -
  obtain v1 where v1: "Variable_init named_var = Inr v1" and t1: "truthy (var_nameTokenId v1)"
    by (simp add: Variable_init_def named_var_def get_def int_if_truthy_def truthy_def
        str_or_none_def)
  obtain v2 where v2: "Variable_init plain_var = Inr v2" and t2: "\<not> truthy (var_nameTokenId v2)"
    by (simp add: Variable_init_def plain_var_def get_def int_if_truthy_def truthy_def
        str_or_none_def)
  have tags: "tag named_var = ''var''" "tag plain_var = ''var''"
    by (simp_all add: named_var_def plain_var_def)
  have st: "cfg (open_state False) = Some (Configuration_init (Some []))"
    "\<not> iter_varlist (open_state False)" "iter_varlist (open_state True)"
    "cfg_arguments (open_state False) = []" "variables (Configuration_init (Some [])) = []"
    by (simp_all add: open_state_def iter_init_def Configuration_init_def)
  from var_routing[OF tags(1) v1, of "open_state False" "Configuration_init (Some [])"]
    var_routing[OF tags(2) v2, of "open_state False"]
    var_routing[OF tags(2) v2, of "open_state True"] v1 v2 t1 t2 st
  show ?thesis by simp
qed

text \<open>
  The claim's last part fails: inside a \<^verbatim>\<open>varlist\<close> (the flag is set) a \<^verbatim>\<open>var\<close>
  element with a name token is appended to the variables of the configuration, and the
  configuration read from such a document has it among its variables.
\<close>

theorem varlist_var_counterexample:
  "iter_varlist (open_state True) \<and> tag named_var = ''var''
   \<and> map_option variables (cfg (open_state True)) = Some []
   \<and> map_sum id (\<lambda>(s', y). map_option (map var_Id \<circ> variables) (cfg s'))
       (step (Start, named_var) (open_state True)) = Inr (Some [Some ''v1''])
   \<and> map var_Id (variables (fst (yielded varlist_dump))) = [Some ''v1'']"
  by code_simp

section \<open>Constructing \<^verbatim>\<open>CppcheckData\<close> twice\<close>

text \<open>
  C7 fails on the code. The document has one raw token and one suppression. After the
  first construction the class holds one of each; the second construction on the same
  document appends to the same lists, so they hold two of each, and the loop that links
  the raw tokens links the token of the first construction to that of the second.
\<close>

theorem CppcheckData_init_twice:
  "(case CppcheckData_init CppcheckData_class ''a.dump'' (events_of raw_document) of
      (cls1, r1) \<Rightarrow>
        (case CppcheckData_init cls1 ''a.dump'' (events_of raw_document) of
           (cls2, r2) \<Rightarrow>
             isl r1 = False \<and> isl r2 = False
             \<and> map tk_str (rawTokens cls1) = [Some ''int'']
             \<and> map tk_file (rawTokens cls1) = [Some ''y.c'']
             \<and> map sup_errorId (suppressions cls1) = [Some ''unusedVariable'']
             \<and> map tk_str (rawTokens cls2) = [Some ''int'', Some ''int'']
             \<and> map sup_errorId (suppressions cls2)
                 = [Some ''unusedVariable'', Some ''unusedVariable'']
             \<and> map tk_next (rawTokens cls2) = [Some (TokenRef 1), None]))"
  by code_simp

section \<open>\<^verbatim>\<open>getArguments\<close>\<close>

lemma getArgumentsRecursive_None [simp]:
  "getArgumentsRecursive c None arguments = Some (Inr arguments)"
  by (subst getArgumentsRecursive.simps) simp

lemma getArgumentsRecursive_leaf:
  "token_at c r = Inr t \<Longrightarrow> tk_str t \<noteq> Some '','' \<Longrightarrow>
     getArgumentsRecursive c (Some r) arguments = Some (Inr (arguments @ [r]))"
  by (subst getArgumentsRecursive.simps) simp

lemma getArgumentsRecursive_comma:
  "token_at c r = Inr t \<Longrightarrow> tk_str t = Some '','' \<Longrightarrow>
     getArgumentsRecursive c (Some r) arguments =
       Option.bind (getArgumentsRecursive c (tk_astOperand1 t) arguments)
         (\<lambda>res. case res of
             Inl e \<Rightarrow> Some (Inl e)
           | Inr arguments1 \<Rightarrow> getArgumentsRecursive c (tk_astOperand2 t) arguments1)"
  by (subst getArgumentsRecursive.simps) simp

text \<open>Over a finite tree of tokens the recursion returns a list.\<close>

lemma ast_finite_returns:
  "ast_finite c tok \<Longrightarrow> \<exists>args. getArgumentsRecursive c tok arguments = Some (Inr args)"
proof (induction arbitrary: arguments rule: ast_finite.induct)
  case (ast_None c)
  show ?case by simp
next
  case (ast_leaf c r t)
  then show ?case by (simp add: getArgumentsRecursive_leaf)
next
  case (ast_comma c r t)
  from ast_comma.IH(1) obtain args1 where
    a1: "getArgumentsRecursive c (tk_astOperand1 t) arguments = Some (Inr args1)" by blast
  from ast_comma.IH(2) obtain args2 where
    a2: "getArgumentsRecursive c (tk_astOperand2 t) args1 = Some (Inr args2)" by blast
  from ast_comma.hyps(1,2) a1 a2 show ?case
    by (simp add: getArgumentsRecursive_comma)
qed

text \<open>Where the recursion returns a list, it has walked a finite tree of tokens.\<close>

lemma returns_ast_finite:
  assumes ret: "getArgumentsRecursive c tok arguments = Some res"
  shows "(\<exists>args. res = Inr args) \<longrightarrow> ast_finite c tok"
proof (rule getArgumentsRecursive.raw_induct
    [where P = "\<lambda>c tok arguments res. (\<exists>args. res = Inr args) \<longrightarrow> ast_finite c tok",
     OF _ ret])
  fix f c tok arguments res
  assume IH: "\<And>c tok arguments res. f c tok arguments = Some res \<Longrightarrow>
                (\<exists>args. res = Inr args) \<longrightarrow> ast_finite c tok"
    and eq: "(case tok of
        None \<Rightarrow> Some (Inr arguments)
      | Some r \<Rightarrow>
          (case token_at c r of
             Inl e \<Rightarrow> Some (Inl e)
           | Inr t \<Rightarrow>
               if tk_str t = Some '','' then
                 Option.bind (f c (tk_astOperand1 t) arguments)
                   (\<lambda>res. case res of
                      Inl e \<Rightarrow> Some (Inl e)
                    | Inr arguments1 \<Rightarrow> f c (tk_astOperand2 t) arguments1)
               else Some (Inr (arguments @ [r])))) = Some res"
  show "(\<exists>args. res = Inr args) \<longrightarrow> ast_finite c tok"
  proof
    assume "\<exists>args. res = Inr args"
    then obtain args where res: "res = Inr args" ..
    show "ast_finite c tok"
    proof (cases tok)
      case None
      then show ?thesis by (simp add: ast_None)
    next
      case (Some r)
      with eq res obtain t where t: "token_at c r = Inr t"
        by (cases "token_at c r") auto
      show ?thesis
      proof (cases "tk_str t = Some '',''")
        case False
        with t Some show ?thesis by (simp add: ast_leaf)
      next
        case True
        with eq Some t res obtain r1 where
          r1: "f c (tk_astOperand1 t) arguments = Some r1" and
          r2: "(case r1 of Inl e \<Rightarrow> Some (Inl e)
                | Inr arguments1 \<Rightarrow> f c (tk_astOperand2 t) arguments1) = Some (Inr args)"
          by (auto simp: bind_eq_Some_conv)
        from r2 obtain args1 where a1: "r1 = Inr args1"
          and a2: "f c (tk_astOperand2 t) args1 = Some (Inr args)"
          by (cases r1) auto
        from IH[OF r1] a1 have f1: "ast_finite c (tk_astOperand1 t)" by simp
        from IH[OF a2] have f2: "ast_finite c (tk_astOperand2 t)" by simp
        from t True f1 f2 Some show ?thesis by (simp add: ast_comma)
      qed
    qed
  qed
qed

text \<open>A comma token that is its own first operand: the recursion does not return.\<close>

lemma self_operand_diverges:
  assumes t: "token_at c r = Inr t" and s: "tk_str t = Some '',''"
    and o: "tk_astOperand1 t = Some r"
  shows "getArgumentsRecursive c (Some r) arguments = None"
proof (rule ccontr)
  assume "getArgumentsRecursive c (Some r) arguments \<noteq> None"
  then obtain res where ret: "getArgumentsRecursive c (Some r) arguments = Some res" by auto
  have "\<not> (c = c \<and> Some r = Some r)"
  proof (rule getArgumentsRecursive.raw_induct
      [where P = "\<lambda>c' tok arguments res. \<not> (c' = c \<and> tok = Some r)", OF _ ret])
    fix f c' tok arguments res
    assume IH: "\<And>c' tok arguments res. f c' tok arguments = Some res \<Longrightarrow>
                  \<not> (c' = c \<and> tok = Some r)"
      and eq: "(case tok of
          None \<Rightarrow> Some (Inr arguments)
        | Some r \<Rightarrow>
            (case token_at c' r of
               Inl e \<Rightarrow> Some (Inl e)
             | Inr t \<Rightarrow>
                 if tk_str t = Some '','' then
                   Option.bind (f c' (tk_astOperand1 t) arguments)
                     (\<lambda>res. case res of
                        Inl e \<Rightarrow> Some (Inl e)
                      | Inr arguments1 \<Rightarrow> f c' (tk_astOperand2 t) arguments1)
                 else Some (Inr (arguments @ [r])))) = Some res"
    show "\<not> (c' = c \<and> tok = Some r)"
    proof
      assume "c' = c \<and> tok = Some r"
      with eq t s o obtain r1 where "f c (Some r) arguments = Some r1"
        by (auto simp: bind_eq_Some_conv)
      from IH[OF this] show False by simp
    qed
  qed
  then show False by simp
qed

lemma map_sum_Some_not_None: "map_sum id Some z \<noteq> Inr None"
  by (cases z) auto

text \<open>What the reader yields for the two example calls, as far as the traversal reads it.\<close>

lemma call_shape:
  "map (\<lambda>t. (tk_isName t, tk_str t, tk_next t, tk_astOperand1 t, tk_astOperand2 t))
     (tokenlist call_cfg) =
   [(True, Some ''f'', Some (TokenRef 1), None, None),
    (False, Some ''('', Some (TokenRef 2), Some (TokenRef 0), Some (TokenRef 3)),
    (True, Some ''a'', Some (TokenRef 3), None, None),
    (False, Some '','', Some (TokenRef 4), Some (TokenRef 2), Some (TokenRef 4)),
    (True, Some ''b'', Some (TokenRef 5), None, None),
    (False, Some '')'', None, None, None)]"
  by code_simp

lemma cyclic_shape:
  "map (\<lambda>t. (tk_isName t, tk_str t, tk_next t, tk_astOperand1 t, tk_astOperand2 t))
     (tokenlist cyclic_cfg) =
   [(True, Some ''f'', Some (TokenRef 1), None, None),
    (False, Some ''('', Some (TokenRef 2), Some (TokenRef 0), Some (TokenRef 2)),
    (False, Some '','', Some (TokenRef 3), Some (TokenRef 2), None),
    (False, Some '')'', None, None, None)]"
  by code_simp

lemma shape_nth:
  assumes "map f ts = xs" and "i < length xs"
  shows "i < length ts \<and> f (ts ! i) = xs ! i"
  using assms by auto

text \<open>
  C9. In a configuration where \<open>f\<close> is a name token, its next token is \<^verbatim>\<open>(\<close>, the
  second operand of that token is a comma token, and the operands of the comma are the
  tokens \<open>a\<close> and \<open>b\<close> (neither a comma itself), \<^verbatim>\<open>getArguments(f)\<close> returns the list
  of \<open>a\<close> and \<open>b\<close>, in this order.
\<close>

theorem getArguments_call:
  assumes "tk_isName f" and "tk_next f = Some (TokenRef p)" and "p < length (tokenlist c)"
    and "tk_str (tokenlist c ! p) = Some ''(''"
    and "tk_astOperand2 (tokenlist c ! p) = Some (TokenRef k)" and "k < length (tokenlist c)"
    and "tk_str (tokenlist c ! k) = Some '',''"
    and "tk_astOperand1 (tokenlist c ! k) = Some (TokenRef a)" and "a < length (tokenlist c)"
    and "tk_astOperand2 (tokenlist c ! k) = Some (TokenRef b)" and "b < length (tokenlist c)"
    and "tk_str (tokenlist c ! a) \<noteq> Some '',''" and "tk_str (tokenlist c ! b) \<noteq> Some '',''"
  shows "getArguments c f = Some (Inr (Some [TokenRef a, TokenRef b]))"
proof -
  have ta: "token_at c (TokenRef a) = Inr (tokenlist c ! a)"
    and tb: "token_at c (TokenRef b) = Inr (tokenlist c ! b)"
    and tk: "token_at c (TokenRef k) = Inr (tokenlist c ! k)"
    and tp: "token_at c (TokenRef p) = Inr (tokenlist c ! p)"
    using assms by (simp_all add: token_at_def)
  have "getArgumentsRecursive c (Some (TokenRef k)) [] = Some (Inr [TokenRef a, TokenRef b])"
    using assms ta tb tk
    by (simp add: getArgumentsRecursive_comma getArgumentsRecursive_leaf)
  with assms tp show ?thesis by (simp add: getArguments_def)
qed

theorem getArguments_call_witness:
  "map tk_str (tokenlist call_cfg) =
     [Some ''f'', Some ''('', Some ''a'', Some '','', Some ''b'', Some '')'']
   \<and> tk_isName (tokenlist call_cfg ! 0)
   \<and> tk_next (tokenlist call_cfg ! 0) = Some (TokenRef 1)
   \<and> tk_astOperand2 (tokenlist call_cfg ! 1) = Some (TokenRef 3)
   \<and> tk_astOperand1 (tokenlist call_cfg ! 3) = Some (TokenRef 2)
   \<and> tk_astOperand2 (tokenlist call_cfg ! 3) = Some (TokenRef 4)
   \<and> getArguments call_cfg (tokenlist call_cfg ! 0) = Some (Inr (Some [TokenRef 2, TokenRef 4]))"
proof -
  note sh = shape_nth[OF call_shape]
  have strs: "map tk_str (tokenlist call_cfg) =
     [Some ''f'', Some ''('', Some ''a'', Some '','', Some ''b'', Some '')'']"
    using arg_cong[OF call_shape, of "map (fst \<circ> snd)"] by (simp add: comp_def)
  have f: "tk_isName (tokenlist call_cfg ! 0)"
    "tk_next (tokenlist call_cfg ! 0) = Some (TokenRef 1)"
    using sh[of 0] by simp_all
  have p: "1 < length (tokenlist call_cfg)" "tk_str (tokenlist call_cfg ! 1) = Some ''(''"
    "tk_astOperand2 (tokenlist call_cfg ! 1) = Some (TokenRef 3)"
    using sh[of 1] by simp_all
  have k: "3 < length (tokenlist call_cfg)" "tk_str (tokenlist call_cfg ! 3) = Some '',''"
    "tk_astOperand1 (tokenlist call_cfg ! 3) = Some (TokenRef 2)"
    "tk_astOperand2 (tokenlist call_cfg ! 3) = Some (TokenRef 4)"
    using sh[of 3] by simp_all
  have a: "2 < length (tokenlist call_cfg)" "tk_str (tokenlist call_cfg ! 2) \<noteq> Some '',''"
    using sh[of 2] by simp_all
  have b: "4 < length (tokenlist call_cfg)" "tk_str (tokenlist call_cfg ! 4) \<noteq> Some '',''"
    using sh[of 4] by simp_all
  from getArguments_call[OF f p(1) p(2) p(3) k(1) k(2) k(3) a(1) k(4) b(1) a(2) b(2)]
    strs f p k show ?thesis by simp
qed

text \<open>
  C10, as the code has it. \<^verbatim>\<open>getArguments(ftok)\<close> returns None exactly when \<open>ftok\<close>
  is not a name token, or has no next token, or the string of its next token is not
  \<^verbatim>\<open>(\<close>. In every other case it returns a list exactly when the operand links below
  the second operand of the next token form a finite tree of tokens; otherwise it raises
  or does not return.
\<close>

theorem getArguments_result:
  "(getArguments c ftok = Some (Inr None) \<longleftrightarrow>
      \<not> tk_isName ftok \<or> tk_next ftok = None
      \<or> (\<exists>r nxt. tk_next ftok = Some r \<and> token_at c r = Inr nxt \<and> tk_str nxt \<noteq> Some ''(''))
   \<and> (\<forall>r nxt. tk_isName ftok \<longrightarrow> tk_next ftok = Some r \<longrightarrow> token_at c r = Inr nxt \<longrightarrow>
         tk_str nxt = Some ''('' \<longrightarrow>
         ((\<exists>args. getArguments c ftok = Some (Inr (Some args)))
            \<longleftrightarrow> ast_finite c (tk_astOperand2 nxt)))"
proof (intro conjI allI impI)
  show "getArguments c ftok = Some (Inr None) \<longleftrightarrow>
      \<not> tk_isName ftok \<or> tk_next ftok = None
      \<or> (\<exists>r nxt. tk_next ftok = Some r \<and> token_at c r = Inr nxt \<and> tk_str nxt \<noteq> Some ''('')"
    by (auto simp: getArguments_def map_sum_Some_not_None split: option.splits sum.splits)
next
  fix r nxt
  assume h: "tk_isName ftok" "tk_next ftok = Some r" "token_at c r = Inr nxt"
    "tk_str nxt = Some ''(''"
  then have g: "getArguments c ftok =
      map_option (map_sum id Some) (getArgumentsRecursive c (tk_astOperand2 nxt) [])"
    by (simp add: getArguments_def)
  show "(\<exists>args. getArguments c ftok = Some (Inr (Some args)))
            \<longleftrightarrow> ast_finite c (tk_astOperand2 nxt)"
  proof
    assume "\<exists>args. getArguments c ftok = Some (Inr (Some args))"
    then obtain args where "getArguments c ftok = Some (Inr (Some args))" ..
    with g have "map_option (map_sum id Some)
        (getArgumentsRecursive c (tk_astOperand2 nxt) []) = Some (Inr (Some args))" by simp
    then obtain res where r: "getArgumentsRecursive c (tk_astOperand2 nxt) [] = Some res"
      and "map_sum id Some res = Inr (Some args)" by blast
    then have "\<exists>a. res = Inr a" by (cases res) auto
    with returns_ast_finite[OF r] show "ast_finite c (tk_astOperand2 nxt)" by simp
  next
    assume "ast_finite c (tk_astOperand2 nxt)"
    from ast_finite_returns[OF this, of "[]"] g
    show "\<exists>args. getArguments c ftok = Some (Inr (Some args))" by auto
  qed
qed

theorem getArguments_result_witness:
  "tk_isName (tokenlist call_cfg ! 0) \<and> tk_next (tokenlist call_cfg ! 0) = Some (TokenRef 1)
   \<and> token_at call_cfg (TokenRef 1) = Inr (tokenlist call_cfg ! 1)
   \<and> tk_str (tokenlist call_cfg ! 1) = Some ''(''
   \<and> ast_finite call_cfg (tk_astOperand2 (tokenlist call_cfg ! 1))
   \<and> (\<exists>args. getArguments call_cfg (tokenlist call_cfg ! 0) = Some (Inr (Some args)))
   \<and> \<not> tk_isName (tokenlist call_cfg ! 1)
   \<and> getArguments call_cfg (tokenlist call_cfg ! 1) = Some (Inr None)"
proof -
  note sh = shape_nth[OF call_shape]
  have f: "tk_isName (tokenlist call_cfg ! 0)"
    "tk_next (tokenlist call_cfg ! 0) = Some (TokenRef 1)"
    using sh[of 0] by simp_all
  have p: "token_at call_cfg (TokenRef 1) = Inr (tokenlist call_cfg ! 1)"
    "tk_str (tokenlist call_cfg ! 1) = Some ''(''"
    "tk_astOperand2 (tokenlist call_cfg ! 1) = Some (TokenRef 3)"
    "\<not> tk_isName (tokenlist call_cfg ! 1)"
    using sh[of 1] by (simp_all add: token_at_def)
  have k: "token_at call_cfg (TokenRef 3) = Inr (tokenlist call_cfg ! 3)"
    "tk_str (tokenlist call_cfg ! 3) = Some '',''"
    "tk_astOperand1 (tokenlist call_cfg ! 3) = Some (TokenRef 2)"
    "tk_astOperand2 (tokenlist call_cfg ! 3) = Some (TokenRef 4)"
    using sh[of 3] by (simp_all add: token_at_def)
  have a: "token_at call_cfg (TokenRef 2) = Inr (tokenlist call_cfg ! 2)"
    "tk_str (tokenlist call_cfg ! 2) \<noteq> Some '',''"
    using sh[of 2] by (simp_all add: token_at_def)
  have b: "token_at call_cfg (TokenRef 4) = Inr (tokenlist call_cfg ! 4)"
    "tk_str (tokenlist call_cfg ! 4) \<noteq> Some '',''"
    using sh[of 4] by (simp_all add: token_at_def)
  have fa: "ast_finite call_cfg (Some (TokenRef 2))" by (rule ast_leaf[OF a])
  have fb: "ast_finite call_cfg (Some (TokenRef 4))" by (rule ast_leaf[OF b])
  have fin: "ast_finite call_cfg (tk_astOperand2 (tokenlist call_cfg ! 1))"
    using ast_comma[OF k(1) k(2)] fa fb k(3,4) p(3) by simp
  note r = getArguments_result[of call_cfg]
  from r[of "tokenlist call_cfg ! 0"] f p fin
  have l: "\<exists>args. getArguments call_cfg (tokenlist call_cfg ! 0) = Some (Inr (Some args))"
    by blast
  from r[of "tokenlist call_cfg ! 1"] p(4)
  have n: "getArguments call_cfg (tokenlist call_cfg ! 1) = Some (Inr None)" by blast
  from f p fin l n show ?thesis by simp
qed

text \<open>
  The claim's "in all other cases it returns a list" fails: \<open>f\<close> is a name token
  followed by \<^verbatim>\<open>(\<close>, and the comma token under the \<^verbatim>\<open>(\<close> is its own first operand;
  \<^verbatim>\<open>getArguments(f)\<close> does not return.
\<close>

theorem getArguments_cyclic_counterexample:
  "tk_isName (tokenlist cyclic_cfg ! 0)
   \<and> tk_next (tokenlist cyclic_cfg ! 0) = Some (TokenRef 1)
   \<and> token_at cyclic_cfg (TokenRef 1) = Inr (tokenlist cyclic_cfg ! 1)
   \<and> tk_str (tokenlist cyclic_cfg ! 1) = Some ''(''
   \<and> tk_astOperand2 (tokenlist cyclic_cfg ! 1) = Some (TokenRef 2)
   \<and> tk_astOperand1 (tokenlist cyclic_cfg ! 2) = Some (TokenRef 2)
   \<and> getArguments cyclic_cfg (tokenlist cyclic_cfg ! 0) = None"
proof -
  note sh = shape_nth[OF cyclic_shape]
  have f: "tk_isName (tokenlist cyclic_cfg ! 0)"
    "tk_next (tokenlist cyclic_cfg ! 0) = Some (TokenRef 1)"
    using sh[of 0] by simp_all
  have p: "token_at cyclic_cfg (TokenRef 1) = Inr (tokenlist cyclic_cfg ! 1)"
    "tk_str (tokenlist cyclic_cfg ! 1) = Some ''(''"
    "tk_astOperand2 (tokenlist cyclic_cfg ! 1) = Some (TokenRef 2)"
    using sh[of 1] by (simp_all add: token_at_def)
  have k: "token_at cyclic_cfg (TokenRef 2) = Inr (tokenlist cyclic_cfg ! 2)"
    "tk_str (tokenlist cyclic_cfg ! 2) = Some '',''"
    "tk_astOperand1 (tokenlist cyclic_cfg ! 2) = Some (TokenRef 2)"
    using sh[of 2] by (simp_all add: token_at_def)
  have "getArgumentsRecursive cyclic_cfg (Some (TokenRef 2)) [] = None"
    by (rule self_operand_diverges[OF k])
  with f p k show ?thesis by (simp add: getArguments_def)
qed

section \<open>\<^verbatim>\<open>set_tokens_links\<close>\<close>

lemma length_linked_from [simp]: "length (linked_from k ts) = length ts"
  by (simp add: linked_from_def)

lemma nth_linked_from:
  "i < length ts \<Longrightarrow> linked_from k ts ! i = (ts ! i)
        \<lparr>tk_previous :=
           (if i < k then tk_previous (ts ! i)
            else if i = 0 then None else Some (TokenRef (i - 1))),
         tk_next :=
           (if Suc i < length ts \<and> k \<le> Suc i then Some (TokenRef (Suc i))
            else tk_next (ts ! i))\<rparr>"
  by (simp add: linked_from_def)

lemma linked_from_length: "linked_from (length ts) ts = ts"
  by (rule nth_equalityI) (auto simp: nth_linked_from)

lemma links_loop_linked_from:
  "k \<le> length ts \<Longrightarrow>
     links_loop [k..<length ts] (if k = 0 then None else Some (k - 1)) ts = linked_from k ts"
proof (induction "length ts - k" arbitrary: k ts)
  case 0
  then have "k = length ts" by simp
  then show ?case by (simp add: linked_from_length)
next
  case (Suc d)
  then have k: "k < length ts" by simp
  define ts1 where "ts1 = ts[k := (ts ! k)\<lparr>tk_previous :=
      map_option TokenRef (if k = 0 then None else Some (k - 1))\<rparr>]"
  define ts2 where "ts2 = (case (if k = 0 then None else Some (k - 1)) of
      None \<Rightarrow> ts1 | Some p \<Rightarrow> ts1[p := (ts1 ! p)\<lparr>tk_next := Some (TokenRef k)\<rparr>])"
  have len: "length ts2 = length ts" by (simp add: ts2_def ts1_def)
  have "links_loop [k..<length ts] (if k = 0 then None else Some (k - 1)) ts =
        links_loop [Suc k..<length ts] (Some k) ts2"
    using k by (simp add: upt_conv_Cons ts2_def ts1_def Let_def del: upt_Suc)
  also have "\<dots> = linked_from (Suc k) ts2"
    using Suc.hyps(1)[of ts2 "Suc k"] Suc.hyps(2) k len by simp
  also have "\<dots> = linked_from k ts"
  proof (rule nth_equalityI)
    show "length (linked_from (Suc k) ts2) = length (linked_from k ts)" by (simp add: len)
  next
    fix i assume "i < length (linked_from (Suc k) ts2)"
    then have i: "i < length ts" by (simp add: len)
    show "linked_from (Suc k) ts2 ! i = linked_from k ts ! i"
      using i k by (auto simp: nth_linked_from len ts2_def ts1_def nth_list_update)
  qed
  finally show ?case .
qed

lemma set_tokens_links_linked_from:
  "set_tokens_links c = c\<lparr>tokenlist := linked_from 0 (tokenlist c)\<rparr>"
  using links_loop_linked_from[of 0 "tokenlist c"] by (simp add: set_tokens_links_def)

lemma doubly_linked_linked_from:
  assumes "ts \<noteq> [] \<longrightarrow> tk_next (last ts) = None"
  shows "doubly_linked (linked_from 0 ts)"
  unfolding doubly_linked_def list_all_iff
proof
  fix i assume "i \<in> set [0..<length (linked_from 0 ts)]"
  then have i: "i < length ts" by simp
  have l: "tk_next (ts ! i) = None" if "Suc i = length ts"
  proof -
    from that have "ts \<noteq> []" and "length ts - 1 = i" by auto
    with assms show ?thesis by (simp add: last_conv_nth)
  qed
  show "(case tk_next (linked_from 0 ts ! i) of
           None \<Rightarrow> True
         | Some r \<Rightarrow>
             (case r of
                TokenRef j \<Rightarrow>
                  j < length (linked_from 0 ts)
                  \<and> tk_previous (linked_from 0 ts ! j) = Some (TokenRef i)
              | _ \<Rightarrow> False))
      \<and> (case tk_previous (linked_from 0 ts ! i) of
           None \<Rightarrow> True
         | Some r \<Rightarrow>
             (case r of
                TokenRef j \<Rightarrow>
                  j < length (linked_from 0 ts)
                  \<and> tk_next (linked_from 0 ts ! j) = Some (TokenRef i)
              | _ \<Rightarrow> False))
      \<and> (if i = 0 then tk_previous (linked_from 0 ts ! i) = None
          else tk_previous (linked_from 0 ts ! i) = Some (TokenRef (i - 1)))
      \<and> (if Suc i = length (linked_from 0 ts) then tk_next (linked_from 0 ts ! i) = None
          else tk_next (linked_from 0 ts ! i) = Some (TokenRef (Suc i)))"
    using i l by (auto simp: nth_linked_from)
qed

lemma Token_init_fresh:
  "Token_init e = Inr t \<Longrightarrow> tk_next t = None \<and> tk_previous t = None"
  by (auto simp: Token_init_def Let_def ebind_eq_Inr)

text \<open>
  C4. The tokens of a configuration are the Token objects built from the \<^verbatim>\<open>token\<close>
  elements of the document. After \<^verbatim>\<open>set_tokens_links\<close> they form one doubly linked list.
\<close>

theorem set_tokens_links_doubly_linked:
  assumes "for_each Token_init elements = Inr (tokenlist c)"
  shows "doubly_linked (tokenlist (set_tokens_links c))"
proof -
  from assms have la: "list_all2 (\<lambda>e t. Token_init e = Inr t) elements (tokenlist c)"
    by (simp add: for_each_Inr)
  have "tk_next t = None" if "t \<in> set (tokenlist c)" for t
  proof -
    from that obtain i where "i < length (tokenlist c)" and "tokenlist c ! i = t"
      by (auto simp: in_set_conv_nth)
    with la have "Token_init (elements ! i) = Inr t"
      by (auto simp: list_all2_conv_all_nth)
    then show ?thesis by (simp add: Token_init_fresh)
  qed
  then have "\<forall>t \<in> set (tokenlist c). tk_next t = None" by blast
  then have "tokenlist c \<noteq> [] \<longrightarrow> tk_next (last (tokenlist c)) = None" by simp
  then show ?thesis
    by (simp add: set_tokens_links_linked_from doubly_linked_linked_from)
qed

theorem set_tokens_links_doubly_linked_witness:
  "for_each Token_init call_tokens = Inr (tokenlist (fst (before_end call_dump)))
   \<and> length (tokenlist (fst (before_end call_dump))) = 6
   \<and> doubly_linked (tokenlist (set_tokens_links (fst (before_end call_dump))))"
proof -
  have h: "for_each Token_init call_tokens = Inr (tokenlist (fst (before_end call_dump)))"
    by code_simp
  have l: "length (tokenlist (fst (before_end call_dump))) = 6"
    by code_simp
  from set_tokens_links_doubly_linked[OF h] h l show ?thesis by simp
qed

section \<open>The lookup table\<close>

lemma getitem_Inr: "getitem m k = Inr r \<longleftrightarrow> m k = Some r"
  by (simp add: getitem_def split: option.splits)

lemma getitem_Inl: "getitem m k = Inl e \<longleftrightarrow> m k = None \<and> e = KeyError k"
  by (auto simp: getitem_def split: option.splits)

lemma attr_of_Inr: "attr_of f x = Inr k \<longleftrightarrow> (\<exists>y. x = Some y \<and> f y = k)"
  by (auto simp: attr_of_def split: option.splits)

lemma add_ids_cong:
  "map idf xs = map idf' ys \<Longrightarrow> add_ids mk idf i xs m = add_ids mk idf' i ys m"
proof (induction xs arbitrary: ys i m)
  case Nil
  then show ?case by simp
next
  case (Cons x xs)
  then obtain y ys' where ys: "ys = y # ys'" by (cases ys) auto
  with Cons.prems have hd: "idf x = idf' y" and tl: "map idf xs = map idf' ys'" by auto
  have "add_ids mk idf (Suc i) xs m' = add_ids mk idf' (Suc i) ys' m'" for m'
    by (rule Cons.IH[OF tl])
  then show ?case by (simp add: ys hd split: sum.splits)
qed

lemma map_Inr_cong:
  "map f xs = map g ys \<Longrightarrow>
     map (\<lambda>x. (Inr (f x) :: error + 'c)) xs = map (\<lambda>y. Inr (g y)) ys"
proof -
  assume eq: "map f xs = map g ys"
  have "map (\<lambda>x. (Inr (f x) :: error + 'c)) xs = map Inr (map f xs)" by simp
  also have "\<dots> = map Inr (map g ys)" by (simp only: eq)
  also have "\<dots> = map (\<lambda>y. Inr (g y)) ys" by simp
  finally show ?thesis .
qed

lemma add_ids_keeps:
  "add_ids mk idf i xs m = Inr m' \<Longrightarrow> m k \<noteq> None \<Longrightarrow> m' k \<noteq> None"
  by (induction xs arbitrary: i m) (auto split: sum.splits)

lemma add_ids_other:
  "add_ids mk idf i xs m = Inr m' \<Longrightarrow> \<forall>x \<in> set xs. idf x \<noteq> Inr k \<Longrightarrow> m' k = m k"
  by (induction xs arbitrary: i m) (auto split: sum.splits)

lemma add_ids_all_Inr:
  "add_ids mk idf i xs m = Inr m' \<Longrightarrow> x \<in> set xs \<Longrightarrow> \<exists>k. idf x = Inr k"
  by (induction xs arbitrary: i m) (auto split: sum.splits)

lemma add_ids_last:
  "add_ids mk idf i xs m = Inr m' \<Longrightarrow> j < length xs \<Longrightarrow> idf (xs ! j) = Inr k \<Longrightarrow>
     \<forall>j'. j < j' \<and> j' < length xs \<longrightarrow> idf (xs ! j') \<noteq> Inr k \<Longrightarrow>
     m' k = Some (Some (mk (i + j)))"
proof (induction xs arbitrary: i m j)
  case Nil
  then show ?case by simp
next
  case (Cons x xs)
  from Cons.prems(1) obtain k0 where k0: "idf x = Inr k0"
    and rest: "add_ids mk idf (Suc i) xs (m(k0 \<mapsto> Some (mk i))) = Inr m'"
    by (auto split: sum.splits)
  show ?case
  proof (cases j)
    case 0
    with Cons.prems k0 have "k0 = k" by simp
    have "\<forall>x' \<in> set xs. idf x' \<noteq> Inr k"
    proof
      fix x' assume "x' \<in> set xs"
      then obtain i' where i': "i' < length xs" "xs ! i' = x'"
        by (auto simp: in_set_conv_nth)
      then show "idf x' \<noteq> Inr k"
        using Cons.prems(4)[rule_format, of "Suc i'"] 0 by simp
    qed
    from add_ids_other[OF rest this] \<open>k0 = k\<close> 0 show ?thesis by simp
  next
    case (Suc j0)
    with Cons.prems have "j0 < length xs" "idf (xs ! j0) = Inr k"
      "\<forall>j'. j0 < j' \<and> j' < length xs \<longrightarrow> idf (xs ! j') \<noteq> Inr k"
      by auto
    from Cons.IH[OF rest this] Suc show ?thesis by simp
  qed
qed

lemma IdMap_of_Inr:
  "IdMap_of c a = Inr m \<longleftrightarrow>
     (\<exists>m1 m2 m3 m4 m5.
        add_ids TokenRef (\<lambda>t. Inr (tk_Id t)) 0 (tokenlist c) IdMap_init = Inr m1 \<and>
        add_ids ScopeRef (\<lambda>s. Inr (sc_Id s)) 0 (scopes c) m1 = Inr m2 \<and>
        add_ids FunctionRef (attr_of fn_Id) 0 (functionlist c) m2 = Inr m3 \<and>
        add_ids VariableRef (\<lambda>v. Inr (var_Id v)) 0 (variables c) m3 = Inr m4 \<and>
        add_ids ArgumentRef (\<lambda>v. Inr (var_Id v)) 0 a m4 = Inr m5 \<and>
        add_ids ValuesRef (attr_of vf_Id) 0 (valueflow c) m5 = Inr m)"
  by (simp add: IdMap_of_def ebind_eq_Inr)

lemma IdMap_init_reserved: "k \<in> set reserved_ids \<longleftrightarrow> IdMap_init k = Some None"
  by (auto simp: reserved_ids_def IdMap_init_def)

lemma IdMap_init_cases: "IdMap_init k = Some None \<or> IdMap_init k = None"
  by (auto simp: IdMap_init_def)

lemma IdMap_of_reserved:
  assumes "IdMap_of c a = Inr m" and "k \<in> set reserved_ids"
  shows "m k \<noteq> None"
proof -
  from assms(1) obtain m1 m2 m3 m4 m5 where
    1: "add_ids TokenRef (\<lambda>t. Inr (tk_Id t)) 0 (tokenlist c) IdMap_init = Inr m1" and
    2: "add_ids ScopeRef (\<lambda>s. Inr (sc_Id s)) 0 (scopes c) m1 = Inr m2" and
    3: "add_ids FunctionRef (attr_of fn_Id) 0 (functionlist c) m2 = Inr m3" and
    4: "add_ids VariableRef (\<lambda>v. Inr (var_Id v)) 0 (variables c) m3 = Inr m4" and
    5: "add_ids ArgumentRef (\<lambda>v. Inr (var_Id v)) 0 a m4 = Inr m5" and
    6: "add_ids ValuesRef (attr_of vf_Id) 0 (valueflow c) m5 = Inr m"
    unfolding IdMap_of_Inr by blast
  from assms(2) have "IdMap_init k \<noteq> None" by (simp add: IdMap_init_reserved)
  then have "m1 k \<noteq> None" by (rule add_ids_keeps[OF 1])
  then have "m2 k \<noteq> None" by (rule add_ids_keeps[OF 2])
  then have "m3 k \<noteq> None" by (rule add_ids_keeps[OF 3])
  then have "m4 k \<noteq> None" by (rule add_ids_keeps[OF 4])
  then have "m5 k \<noteq> None" by (rule add_ids_keeps[OF 5])
  then show "m k \<noteq> None" by (rule add_ids_keeps[OF 6])
qed

lemma IdMap_of_not_issued:
  assumes "IdMap_of c a = Inr m" and "k \<notin> set (issued_ids c a)"
  shows "m k = IdMap_init k"
proof -
  from assms(1) obtain m1 m2 m3 m4 m5 where
    1: "add_ids TokenRef (\<lambda>t. Inr (tk_Id t)) 0 (tokenlist c) IdMap_init = Inr m1" and
    2: "add_ids ScopeRef (\<lambda>s. Inr (sc_Id s)) 0 (scopes c) m1 = Inr m2" and
    3: "add_ids FunctionRef (attr_of fn_Id) 0 (functionlist c) m2 = Inr m3" and
    4: "add_ids VariableRef (\<lambda>v. Inr (var_Id v)) 0 (variables c) m3 = Inr m4" and
    5: "add_ids ArgumentRef (\<lambda>v. Inr (var_Id v)) 0 a m4 = Inr m5" and
    6: "add_ids ValuesRef (attr_of vf_Id) 0 (valueflow c) m5 = Inr m"
    unfolding IdMap_of_Inr by blast
  from assms(2) have
    n1: "\<forall>x \<in> set (tokenlist c). Inr (tk_Id x) \<noteq> (Inr k :: error + string option)" and
    n2: "\<forall>x \<in> set (scopes c). Inr (sc_Id x) \<noteq> (Inr k :: error + string option)" and
    n3: "\<forall>x \<in> set (functionlist c). attr_of fn_Id x \<noteq> Inr k" and
    n4: "\<forall>x \<in> set (variables c). Inr (var_Id x) \<noteq> (Inr k :: error + string option)" and
    n5: "\<forall>x \<in> set a. Inr (var_Id x) \<noteq> (Inr k :: error + string option)" and
    n6: "\<forall>x \<in> set (valueflow c). attr_of vf_Id x \<noteq> Inr k"
    by (auto simp: issued_ids_def attr_of_Inr split: option.splits)
  from add_ids_other[OF 1 n1] add_ids_other[OF 2 n2] add_ids_other[OF 3 n3]
    add_ids_other[OF 4 n4] add_ids_other[OF 5 n5] add_ids_other[OF 6 n6]
  show ?thesis by simp
qed

lemma IdMap_of_no_None:
  assumes "IdMap_of c a = Inr m"
  shows "None \<notin> set (functionlist c)" and "None \<notin> set (valueflow c)"
proof -
  from assms obtain m2 m3 m5 where
    3: "add_ids FunctionRef (attr_of fn_Id) 0 (functionlist c) m2 = Inr m3" and
    6: "add_ids ValuesRef (attr_of vf_Id) 0 (valueflow c) m5 = Inr m"
    unfolding IdMap_of_Inr by blast
  show "None \<notin> set (functionlist c)"
    using add_ids_all_Inr[OF 3, of None] by (auto simp: attr_of_def)
  show "None \<notin> set (valueflow c)"
    using add_ids_all_Inr[OF 6, of None] by (auto simp: attr_of_def)
qed

lemma IdMap_of_cong:
  assumes "map tk_Id (tokenlist c') = map tk_Id (tokenlist c)"
    and "map sc_Id (scopes c') = map sc_Id (scopes c)"
    and "map (attr_of fn_Id) (functionlist c') = map (attr_of fn_Id) (functionlist c)"
    and "map var_Id (variables c') = map var_Id (variables c)"
    and "map var_Id a' = map var_Id a"
    and "valueflow c' = valueflow c"
  shows "IdMap_of c' a' = IdMap_of c a"
proof -
  have 1: "add_ids TokenRef (\<lambda>t. Inr (tk_Id t)) 0 (tokenlist c') m
         = add_ids TokenRef (\<lambda>t. Inr (tk_Id t)) 0 (tokenlist c) m" for m
    by (intro add_ids_cong map_Inr_cong assms(1))
  have 2: "add_ids ScopeRef (\<lambda>s. Inr (sc_Id s)) 0 (scopes c') m
         = add_ids ScopeRef (\<lambda>s. Inr (sc_Id s)) 0 (scopes c) m" for m
    by (intro add_ids_cong map_Inr_cong assms(2))
  have 3: "add_ids FunctionRef (attr_of fn_Id) 0 (functionlist c') m
         = add_ids FunctionRef (attr_of fn_Id) 0 (functionlist c) m" for m
    by (intro add_ids_cong assms(3))
  have 4: "add_ids VariableRef (\<lambda>v. Inr (var_Id v)) 0 (variables c') m
         = add_ids VariableRef (\<lambda>v. Inr (var_Id v)) 0 (variables c) m" for m
    by (intro add_ids_cong map_Inr_cong assms(4))
  have 5: "add_ids ArgumentRef (\<lambda>v. Inr (var_Id v)) 0 a' m
         = add_ids ArgumentRef (\<lambda>v. Inr (var_Id v)) 0 a m" for m
    by (intro add_ids_cong map_Inr_cong assms(5))
  show ?thesis
    by (simp add: IdMap_of_def 1 2 3 4 5 assms(6))
qed

lemma IdMap_of_argument:
  assumes "IdMap_of c a = Inr m" and "j < length a" and "var_Id (a ! j) = k"
    and "\<forall>j'. j' < length a \<and> j' \<noteq> j \<longrightarrow> var_Id (a ! j') \<noteq> k"
    and "\<forall>v. Some v \<in> set (valueflow c) \<longrightarrow> vf_Id v \<noteq> k"
  shows "m k = Some (Some (ArgumentRef j))"
proof -
  from assms(1) obtain m4 m5 where
    5: "add_ids ArgumentRef (\<lambda>v. Inr (var_Id v)) 0 a m4 = Inr m5" and
    6: "add_ids ValuesRef (attr_of vf_Id) 0 (valueflow c) m5 = Inr m"
    unfolding IdMap_of_Inr by blast
  have "m5 k = Some (Some (ArgumentRef (0 + j)))"
    using assms(2,3,4) by (intro add_ids_last[OF 5]) auto
  moreover have "\<forall>x \<in> set (valueflow c). attr_of vf_Id x \<noteq> Inr k"
    using assms(5) by (auto simp: attr_of_Inr)
  ultimately show ?thesis using add_ids_other[OF 6] by simp
qed

section \<open>Resolving one record\<close>

lemma ValueType_setId_Inr:
  "ValueType_setId m vt = Inr vt' \<longleftrightarrow>
     (\<exists>r. m (vt_typeScopeId vt) = Some r \<and> vt' = vt\<lparr>vt_typeScope := r\<rparr>)"
  by (auto simp: ValueType_setId_def ebind_eq_Inr getitem_Inr)

lemma Token_setId_Inr:
  "Token_setId m t = Inr t' \<longleftrightarrow>
     (\<exists>scope link variable function values typeScope astParent astOperand1 astOperand2
         valueType.
        m (tk_scopeId t) = Some scope \<and> m (tk_linkId t) = Some link \<and>
        m (tk_variableId t) = Some variable \<and> m (tk_functionId t) = Some function \<and>
        m (tk_valuesId t) = Some values \<and> m (tk_typeScopeId t) = Some typeScope \<and>
        m (tk_astParentId t) = Some astParent \<and> m (tk_astOperand1Id t) = Some astOperand1 \<and>
        m (tk_astOperand2Id t) = Some astOperand2 \<and>
        (case tk_valueType t of
           None \<Rightarrow> valueType = None
         | Some vt \<Rightarrow>
             (\<exists>r. m (vt_typeScopeId vt) = Some r \<and> valueType = Some (vt\<lparr>vt_typeScope := r\<rparr>))) \<and>
        t' = t\<lparr>tk_scope := scope, tk_link := link, tk_variable := variable,
               tk_function := function, tk_values := values, tk_typeScope := typeScope,
               tk_astParent := astParent, tk_astOperand1 := astOperand1,
               tk_astOperand2 := astOperand2, tk_valueType := valueType\<rparr>)"
  unfolding Token_setId_def ebind_eq_Inr getitem_Inr
  by (cases "tk_valueType t") (simp_all add: ebind_eq_Inr ValueType_setId_Inr, blast+)

lemma Token_setId_links:
  assumes "Token_setId m t = Inr t'" and "(k, r) \<in> set (token_links t')"
  shows "m k = r"
  using assms unfolding Token_setId_Inr
  by (auto simp: token_links_def split: option.splits)

lemma Token_setId_same:
  assumes "Token_setId m t = Inr t'"
  shows "tk_Id t' = tk_Id t" and "tk_next t' = tk_next t" and "tk_previous t' = tk_previous t"
    and "map fst (token_links t') = map fst (token_links t)"
  using assms unfolding Token_setId_Inr
  by (auto simp: token_links_def split: option.splits)

lemma Token_setId_idem:
  assumes "Token_setId m t = Inr t'"
  shows "Token_setId m t' = Inr t'"
  using assms unfolding Token_setId_Inr
  by (auto split: option.splits)

lemma Token_setId_found:
  assumes "Token_setId m t = Inr t'" and "k \<in> fst ` set (token_links t)"
  shows "m k \<noteq> None"
  using assms unfolding Token_setId_Inr
  by (auto simp: token_links_def split: option.splits)

lemma Token_setId_Inl:
  assumes "Token_setId m t = Inl e"
  shows "\<exists>k. e = KeyError k \<and> m k = None"
  using assms unfolding Token_setId_def
  by (auto simp: ebind_eq_Inl getitem_Inl ValueType_setId_def split: option.splits)

lemma Scope_setId_Inr:
  "Scope_setId m s = Inr s' \<longleftrightarrow>
     (\<exists>bodyStart bodyEnd nestedIn function.
        m (sc_bodyStartId s) = Some bodyStart \<and> m (sc_bodyEndId s) = Some bodyEnd \<and>
        m (sc_nestedInId s) = Some nestedIn \<and> m (sc_functionId s) = Some function \<and>
        s' = s\<lparr>sc_bodyStart := bodyStart, sc_bodyEnd := bodyEnd, sc_nestedIn := nestedIn,
               sc_function := function\<rparr>)"
  unfolding Scope_setId_def ebind_eq_Inr getitem_Inr by auto

lemma Scope_setId_links:
  assumes "Scope_setId m s = Inr s'" and "(k, r) \<in> set (scope_links s')"
  shows "m k = r"
  using assms unfolding Scope_setId_Inr by (auto simp: scope_links_def)

lemma Scope_setId_same:
  assumes "Scope_setId m s = Inr s'"
  shows "sc_Id s' = sc_Id s" and "map fst (scope_links s') = map fst (scope_links s)"
  using assms unfolding Scope_setId_Inr by (auto simp: scope_links_def)

lemma Scope_setId_idem:
  assumes "Scope_setId m s = Inr s'"
  shows "Scope_setId m s' = Inr s'"
  using assms unfolding Scope_setId_Inr by auto

lemma Scope_setId_found:
  assumes "Scope_setId m s = Inr s'" and "k \<in> fst ` set (scope_links s)"
  shows "m k \<noteq> None"
  using assms unfolding Scope_setId_Inr by (auto simp: scope_links_def)

lemma Scope_setId_Inl:
  assumes "Scope_setId m s = Inl e"
  shows "\<exists>k. e = KeyError k \<and> m k = None"
  using assms unfolding Scope_setId_def
  by (auto simp: ebind_eq_Inl getitem_Inl)

lemma Variable_setId_Inr:
  "Variable_setId m v = Inr v' \<longleftrightarrow>
     (\<exists>nameToken typeStartToken typeEndToken scope.
        m (var_nameTokenId v) = Some nameToken \<and>
        m (var_typeStartTokenId v) = Some typeStartToken \<and>
        m (var_typeEndTokenId v) = Some typeEndToken \<and> m (var_scopeId v) = Some scope \<and>
        v' = v\<lparr>var_nameToken := nameToken, var_typeStartToken := typeStartToken,
               var_typeEndToken := typeEndToken, var_scope := scope\<rparr>)"
  unfolding Variable_setId_def ebind_eq_Inr getitem_Inr by auto

lemma Variable_setId_links:
  assumes "Variable_setId m v = Inr v'" and "(k, r) \<in> set (variable_links v')"
  shows "m k = r"
  using assms unfolding Variable_setId_Inr by (auto simp: variable_links_def)

lemma Variable_setId_same:
  assumes "Variable_setId m v = Inr v'"
  shows "var_Id v' = var_Id v" and "map fst (variable_links v') = map fst (variable_links v)"
  using assms unfolding Variable_setId_Inr by (auto simp: variable_links_def)

lemma Variable_setId_idem:
  assumes "Variable_setId m v = Inr v'"
  shows "Variable_setId m v' = Inr v'"
  using assms unfolding Variable_setId_Inr by auto

lemma Variable_setId_found:
  assumes "Variable_setId m v = Inr v'" and "k \<in> fst ` set (variable_links v)"
  shows "m k \<noteq> None"
  using assms unfolding Variable_setId_Inr by (auto simp: variable_links_def)

lemma Variable_setId_Inl:
  assumes "Variable_setId m v = Inl e"
  shows "\<exists>k. e = KeyError k \<and> m k = None"
  using assms unfolding Variable_setId_def
  by (auto simp: ebind_eq_Inl getitem_Inl)

text \<open>The argument dictionary.\<close>

lemma DAList_update_same:
  "DAList.lookup a k = Some v \<Longrightarrow> DAList.update k v a = a"
  by (simp add: alist_eq_iff update.rep_eq lookup.rep_eq update_triv)

lemma set_arguments_other:
  "set_arguments m items a = Inr a' \<Longrightarrow> k \<notin> fst ` set items \<Longrightarrow>
     DAList.lookup a' k = DAList.lookup a k"
  by (induction items arbitrary: a) (auto split: sum.splits)

lemma set_arguments_lookup:
  "set_arguments m items a = Inr a' \<Longrightarrow> distinct (map fst items) \<Longrightarrow>
     (k, argid) \<in> set items \<Longrightarrow> m argid \<noteq> None \<and> DAList.lookup a' k = m argid"
proof (induction items arbitrary: a)
  case Nil
  then show ?case by simp
next
  case (Cons item items)
  obtain k0 id0 where item: "item = (k0, id0)" by (cases item)
  with Cons.prems(1) obtain v where v: "m id0 = Some v"
    and rest: "set_arguments m items (DAList.update k0 v a) = Inr a'"
    by (auto simp: getitem_Inr split: sum.splits)
  show ?case
  proof (cases "(k, argid) = (k0, id0)")
    case True
    from Cons.prems(2) item have "k0 \<notin> fst ` set items" by simp
    from set_arguments_other[OF rest this] True v show ?thesis by simp
  next
    case False
    with Cons.prems item have "(k, argid) \<in> set items" "distinct (map fst items)" by auto
    from Cons.IH[OF rest this(2) this(1)] show ?thesis .
  qed
qed

lemma set_arguments_idem:
  "\<forall>(k, argid) \<in> set items. m argid \<noteq> None \<and> DAList.lookup a k = m argid \<Longrightarrow>
     set_arguments m items a = Inr a"
proof (induction items)
  case Nil
  then show ?case by simp
next
  case (Cons item items)
  obtain k0 id0 where item: "item = (k0, id0)" by (cases item)
  with Cons.prems obtain v where v: "m id0 = Some v" "DAList.lookup a k0 = Some v" by auto
  from Cons.prems have "set_arguments m items a = Inr a" by (intro Cons.IH) auto
  with item v show ?case by (simp add: getitem_def DAList_update_same)
qed

lemma set_arguments_Inl:
  "set_arguments m items a = Inl e \<Longrightarrow> \<exists>k. e = KeyError k \<and> m k = None"
  by (induction items arbitrary: a) (auto simp: getitem_Inl split: sum.splits)

lemma Function_setId_Inr:
  "Function_setId m f = Inr f' \<longleftrightarrow>
     (\<exists>argument tokenDef.
        set_arguments m (DAList.impl_of (fn_argumentId f)) (fn_argument f) = Inr argument \<and>
        m (fn_tokenDefId f) = Some tokenDef \<and>
        f' = f\<lparr>fn_argument := argument, fn_tokenDef := tokenDef\<rparr>)"
  unfolding Function_setId_def ebind_eq_Inr getitem_Inr by auto

lemma Function_setId_links:
  assumes "Function_setId m f = Inr f'" and "(k, r) \<in> set (function_links f')"
  shows "m k = r"
proof -
  from assms(1) obtain argument tokenDef where
    a: "set_arguments m (DAList.impl_of (fn_argumentId f)) (fn_argument f) = Inr argument" and
    t: "m (fn_tokenDefId f) = Some tokenDef" and
    f': "f' = f\<lparr>fn_argument := argument, fn_tokenDef := tokenDef\<rparr>"
    unfolding Function_setId_Inr by blast
  from assms(2) f' consider
    (arg) argnr where "(argnr, k) \<in> set (DAList.impl_of (fn_argumentId f))"
      "r = DAList.lookup argument argnr"
    | (tok) "k = fn_tokenDefId f" "r = Some tokenDef"
    by (auto simp: function_links_def)
  then show ?thesis
  proof cases
    case arg
    from set_arguments_lookup[OF a _ arg(1)] arg(2) show ?thesis by simp
  next
    case tok
    with t show ?thesis by simp
  qed
qed

lemma Function_setId_same:
  assumes "Function_setId m f = Inr f'"
  shows "fn_Id f' = fn_Id f" and "fn_argumentId f' = fn_argumentId f"
    and "map fst (function_links f') = map fst (function_links f)"
  using assms unfolding Function_setId_Inr by (auto simp: function_links_def)

lemma Function_setId_idem:
  assumes "Function_setId m f = Inr f'"
  shows "Function_setId m f' = Inr f'"
proof -
  from assms obtain argument tokenDef where
    a: "set_arguments m (DAList.impl_of (fn_argumentId f)) (fn_argument f) = Inr argument" and
    t: "m (fn_tokenDefId f) = Some tokenDef" and
    f': "f' = f\<lparr>fn_argument := argument, fn_tokenDef := tokenDef\<rparr>"
    unfolding Function_setId_Inr by blast
  have "set_arguments m (DAList.impl_of (fn_argumentId f)) argument = Inr argument"
    using set_arguments_lookup[OF a] by (intro set_arguments_idem) auto
  with t f' show ?thesis unfolding Function_setId_Inr by simp
qed

lemma Function_setId_found:
  assumes "Function_setId m f = Inr f'" and "k \<in> fst ` set (function_links f)"
  shows "m k \<noteq> None"
proof -
  from assms(1) obtain argument tokenDef where
    a: "set_arguments m (DAList.impl_of (fn_argumentId f)) (fn_argument f) = Inr argument" and
    t: "m (fn_tokenDefId f) = Some tokenDef"
    unfolding Function_setId_Inr by blast
  from assms(2) consider
    (arg) argnr where "(argnr, k) \<in> set (DAList.impl_of (fn_argumentId f))"
    | (tok) "k = fn_tokenDefId f"
    by (auto simp: function_links_def)
  then show ?thesis
  proof cases
    case arg
    from set_arguments_lookup[OF a _ arg] show ?thesis by simp
  next
    case tok
    with t show ?thesis by simp
  qed
qed

lemma Function_setId_Inl:
  assumes "Function_setId m f = Inl e"
  shows "\<exists>k. e = KeyError k \<and> m k = None"
  using assms unfolding Function_setId_def
  by (auto simp: ebind_eq_Inl getitem_Inl dest: set_arguments_Inl)

lemma method_of_Inr:
  "method_of f x = Inr y \<longleftrightarrow> (\<exists>x' y'. x = Some x' \<and> y = Some y' \<and> f x' = Inr y')"
  by (auto simp: method_of_def ebind_eq_Inr split: option.splits)

lemma for_each_Inl:
  "for_each f xs = Inl e \<Longrightarrow> \<exists>x \<in> set xs. f x = Inl e"
  by (induction xs) (auto split: sum.splits)

section \<open>Resolving a configuration\<close>

lemma list_all2_right:
  assumes "list_all2 P xs ys" and "y \<in> set ys"
  shows "\<exists>x \<in> set xs. P x y"
proof -
  from assms(2) obtain i where i: "i < length ys" "ys ! i = y"
    by (auto simp: in_set_conv_nth)
  with assms(1) have "P (xs ! i) y" "xs ! i \<in> set xs"
    by (auto simp: list_all2_conv_all_nth)
  then show ?thesis by blast
qed

lemma list_all2_left:
  assumes "list_all2 P xs ys" and "x \<in> set xs"
  shows "\<exists>y \<in> set ys. P x y"
proof -
  from assms(2) obtain i where i: "i < length xs" "xs ! i = x"
    by (auto simp: in_set_conv_nth)
  with assms(1) have "P x (ys ! i)" "ys ! i \<in> set ys"
    by (auto simp: list_all2_conv_all_nth)
  then show ?thesis by blast
qed

lemma list_all2_idem:
  "list_all2 (\<lambda>x y. f x = Inr y) xs ys \<Longrightarrow> (\<And>x y. f x = Inr y \<Longrightarrow> f y = Inr y) \<Longrightarrow>
     list_all2 (\<lambda>x y. f x = Inr y) ys ys"
  by (auto simp: list_all2_conv_all_nth)

lemma list_all2_map_eq:
  "list_all2 (\<lambda>x y. f x = Inr y) xs ys \<Longrightarrow> (\<And>x y. f x = Inr y \<Longrightarrow> g y = g x) \<Longrightarrow>
     map g ys = map g xs"
  by (auto simp: list_all2_conv_all_nth list_eq_iff_nth_eq)

lemma set_id_map_Inr:
  "set_id_map c a = Inr (c', a') \<longleftrightarrow>
     (\<exists>m ts ss fs vs.
        IdMap_of c a = Inr m \<and>
        list_all2 (\<lambda>x y. Token_setId m x = Inr y) (tokenlist c) ts \<and>
        list_all2 (\<lambda>x y. Scope_setId m x = Inr y) (scopes c) ss \<and>
        list_all2 (\<lambda>x y. method_of (Function_setId m) x = Inr y) (functionlist c) fs \<and>
        list_all2 (\<lambda>x y. Variable_setId m x = Inr y) (variables c) vs \<and>
        list_all2 (\<lambda>x y. Variable_setId m x = Inr y) a a' \<and>
        c' = c\<lparr>tokenlist := ts, scopes := ss, functionlist := fs, variables := vs\<rparr>)"
  (is "?l \<longleftrightarrow> ?r")
proof
  assume ?l
  then obtain m ts ss fs vs where
    "IdMap_of c a = Inr m"
    "for_each (Token_setId m) (tokenlist c) = Inr ts"
    "for_each (Scope_setId m) (scopes c) = Inr ss"
    "for_each (method_of (Function_setId m)) (functionlist c) = Inr fs"
    "for_each (Variable_setId m) (variables c) = Inr vs"
    "for_each (Variable_setId m) a = Inr a'"
    "c' = c\<lparr>tokenlist := ts, scopes := ss, functionlist := fs, variables := vs\<rparr>"
    by (auto simp: set_id_map_def ebind_eq_Inr)
  then show ?r unfolding for_each_Inr by blast
next
  assume ?r
  then obtain m ts ss fs vs where
    "IdMap_of c a = Inr m"
    "for_each (Token_setId m) (tokenlist c) = Inr ts"
    "for_each (Scope_setId m) (scopes c) = Inr ss"
    "for_each (method_of (Function_setId m)) (functionlist c) = Inr fs"
    "for_each (Variable_setId m) (variables c) = Inr vs"
    "for_each (Variable_setId m) a = Inr a'"
    "c' = c\<lparr>tokenlist := ts, scopes := ss, functionlist := fs, variables := vs\<rparr>"
    unfolding for_each_Inr by blast
  then show ?l by (simp add: set_id_map_def)
qed

lemma set_id_map_Inl:
  assumes m: "IdMap_of c a = Inr m" and e: "set_id_map c a = Inl e"
  shows "\<exists>k. e = KeyError k \<and> m k = None"
proof -
  from e m consider
    (t) "for_each (Token_setId m) (tokenlist c) = Inl e"
    | (s) "for_each (Scope_setId m) (scopes c) = Inl e"
    | (f) "for_each (method_of (Function_setId m)) (functionlist c) = Inl e"
    | (v) "for_each (Variable_setId m) (variables c) = Inl e"
    | (a) "for_each (Variable_setId m) a = Inl e"
    by (auto simp: set_id_map_def ebind_eq_Inl)
  then show ?thesis
  proof cases
    case t
    then show ?thesis by (blast dest: for_each_Inl Token_setId_Inl)
  next
    case s
    then show ?thesis by (blast dest: for_each_Inl Scope_setId_Inl)
  next
    case f
    then obtain x where x: "x \<in> set (functionlist c)" "method_of (Function_setId m) x = Inl e"
      by (blast dest: for_each_Inl)
    with IdMap_of_no_None(1)[OF m] obtain g where "x = Some g" by (cases x) auto
    with x have "Function_setId m g = Inl e"
      by (auto simp: method_of_def ebind_eq_Inl)
    then show ?thesis by (rule Function_setId_Inl)
  next
    case v
    then show ?thesis by (blast dest: for_each_Inl Variable_setId_Inl)
  next
    case a
    then show ?thesis by (blast dest: for_each_Inl Variable_setId_Inl)
  qed
qed

lemma set_id_map_links:
  assumes r: "set_id_map c a = Inr (c', a')" and m: "IdMap_of c a = Inr m"
    and l: "(k, r) \<in> set (links c' a')"
  shows "m k = r"
proof -
  from r m obtain ts ss fs vs where
    ts: "list_all2 (\<lambda>x y. Token_setId m x = Inr y) (tokenlist c) ts" and
    ss: "list_all2 (\<lambda>x y. Scope_setId m x = Inr y) (scopes c) ss" and
    fs: "list_all2 (\<lambda>x y. method_of (Function_setId m) x = Inr y) (functionlist c) fs" and
    vs: "list_all2 (\<lambda>x y. Variable_setId m x = Inr y) (variables c) vs" and
    as: "list_all2 (\<lambda>x y. Variable_setId m x = Inr y) a a'" and
    c': "c' = c\<lparr>tokenlist := ts, scopes := ss, functionlist := fs, variables := vs\<rparr>"
    unfolding set_id_map_Inr by auto
  from l c' consider
    (t) t where "t \<in> set ts" "(k, r) \<in> set (token_links t)"
    | (s) s where "s \<in> set ss" "(k, r) \<in> set (scope_links s)"
    | (f) f where "Some f \<in> set fs" "(k, r) \<in> set (function_links f)"
    | (v) v where "v \<in> set vs" "(k, r) \<in> set (variable_links v)"
    | (a) v where "v \<in> set a'" "(k, r) \<in> set (variable_links v)"
    by (auto simp: links_def split: option.splits)
  then show ?thesis
  proof cases
    case t
    with list_all2_right[OF ts t(1)] show ?thesis by (blast dest: Token_setId_links)
  next
    case s
    with list_all2_right[OF ss s(1)] show ?thesis by (blast dest: Scope_setId_links)
  next
    case f
    from list_all2_right[OF fs f(1)] obtain g where "Function_setId m g = Inr f"
      by (auto simp: method_of_Inr)
    from Function_setId_links[OF this f(2)] show ?thesis .
  next
    case v
    with list_all2_right[OF vs v(1)] show ?thesis by (blast dest: Variable_setId_links)
  next
    case a
    with list_all2_right[OF as a(1)] show ?thesis by (blast dest: Variable_setId_links)
  qed
qed

lemma set_id_map_found:
  assumes r: "set_id_map c a = Inr (c', a')" and m: "IdMap_of c a = Inr m"
    and l: "k \<in> fst ` set (links c a)"
  shows "m k \<noteq> None"
proof -
  from r m have
    ts: "\<forall>x \<in> set (tokenlist c). \<exists>y. Token_setId m x = Inr y" and
    ss: "\<forall>x \<in> set (scopes c). \<exists>y. Scope_setId m x = Inr y" and
    fs: "\<forall>x \<in> set (functionlist c). \<exists>y. method_of (Function_setId m) x = Inr y" and
    vs: "\<forall>x \<in> set (variables c). \<exists>y. Variable_setId m x = Inr y" and
    as: "\<forall>x \<in> set a. \<exists>y. Variable_setId m x = Inr y"
    unfolding set_id_map_Inr by (auto dest: list_all2_left)
  from l obtain r where "(k, r) \<in> set (links c a)" by auto
  then consider
    (t) t where "t \<in> set (tokenlist c)" "(k, r) \<in> set (token_links t)"
    | (s) s where "s \<in> set (scopes c)" "(k, r) \<in> set (scope_links s)"
    | (f) f where "Some f \<in> set (functionlist c)" "(k, r) \<in> set (function_links f)"
    | (v) v where "v \<in> set (variables c)" "(k, r) \<in> set (variable_links v)"
    | (a) v where "v \<in> set a" "(k, r) \<in> set (variable_links v)"
    by (auto simp: links_def split: option.splits)
  then show ?thesis
  proof cases
    case t
    from t(2) have "k \<in> fst ` set (token_links t)" by force
    with t(1) ts show ?thesis by (blast dest: Token_setId_found)
  next
    case s
    from s(2) have "k \<in> fst ` set (scope_links s)" by force
    with s(1) ss show ?thesis by (blast dest: Scope_setId_found)
  next
    case f
    from f(2) have k: "k \<in> fst ` set (function_links f)" by force
    from f(1) fs obtain y where "method_of (Function_setId m) (Some f) = Inr y" by blast
    then obtain f' where "Function_setId m f = Inr f'" by (auto simp: method_of_Inr)
    from Function_setId_found[OF this k] show ?thesis .
  next
    case v
    from v(2) have "k \<in> fst ` set (variable_links v)" by force
    with v(1) vs show ?thesis by (blast dest: Variable_setId_found)
  next
    case a
    from a(2) have "k \<in> fst ` set (variable_links v)" by force
    with a(1) as show ?thesis by (blast dest: Variable_setId_found)
  qed
qed

lemma tokenlist_set_tokens_links [simp]:
  "tokenlist (set_tokens_links c) = linked_from 0 (tokenlist c)"
  "scopes (set_tokens_links c) = scopes c"
  "functionlist (set_tokens_links c) = functionlist c"
  "variables (set_tokens_links c) = variables c"
  "valueflow (set_tokens_links c) = valueflow c"
  by (simp_all add: set_tokens_links_linked_from)

lemma map_linked_from:
  assumes "\<And>t p n. g (t\<lparr>tk_previous := p, tk_next := n\<rparr>) = g t"
  shows "map g (linked_from k ts) = map g ts"
  by (rule nth_equalityI) (simp_all add: nth_linked_from assms)

lemma IdMap_of_set_tokens_links: "IdMap_of (set_tokens_links c) a = IdMap_of c a"
  by (rule IdMap_of_cong) (simp_all add: map_linked_from)

lemma issued_ids_set_tokens_links: "issued_ids (set_tokens_links c) a = issued_ids c a"
  by (simp add: issued_ids_def map_linked_from)

lemma links_set_tokens_links:
  "map fst (links (set_tokens_links c) a) = map fst (links c a)"
proof -
  have "map (map fst \<circ> token_links) (linked_from 0 (tokenlist c))
      = map (map fst \<circ> token_links) (tokenlist c)"
    by (rule map_linked_from) (simp add: token_links_def)
  then show ?thesis
    by (simp add: links_def map_concat)
qed

lemma setIdMap_Inl:
  assumes m: "IdMap_of c a = Inr m" and e: "setIdMap c a = Inl e"
  shows "\<exists>k. e = KeyError k \<and> m k = None"
  using set_id_map_Inl[of "set_tokens_links c" a m e] m e
  by (simp add: setIdMap_def IdMap_of_set_tokens_links)

text \<open>
  At the closing event of a \<^verbatim>\<open>dump\<close> element the reader resolves the open
  configuration together with the argument variables collected so far, and yields it.
\<close>

lemma step_dump_End:
  "tag node = ''dump'' \<Longrightarrow> cfg s = Some c \<Longrightarrow> setIdMap c (cfg_arguments s) = Inr resolved \<Longrightarrow>
     step (End, node) s = Inr (s\<lparr>cfg := None, cfg_arguments := []\<rparr>, Some resolved)"
  by (simp add: step_def)

lemma call_dump_resolved:
  "setIdMap (fst (before_end call_dump)) (snd (before_end call_dump))
     = Inr (fst (yielded call_dump), snd (yielded call_dump))"
  by code_simp

text \<open>
  C3. When the table has been built and a relational attribute of a record of the
  configuration (a token, its value type, a scope, a function or one of its arguments,
  a variable, an argument variable) carries an identifier that is not in the table,
  \<^verbatim>\<open>setIdMap\<close> raises KeyError, for an identifier that is not in the table.
\<close>

theorem unresolved_identifier_raises:
  assumes "k \<in> fst ` set (links c a)"
    and "map_sum id (\<lambda>IdMap. IdMap k) (IdMap_of c a) = Inr None"
  shows "\<exists>k'. setIdMap c a = Inl (KeyError k')
            \<and> map_sum id (\<lambda>IdMap. IdMap k') (IdMap_of c a) = Inr None"
proof -
  from assms(2) obtain m where m: "IdMap_of c a = Inr m" and k: "m k = None"
    by (cases "IdMap_of c a") auto
  have m0: "IdMap_of (set_tokens_links c) a = Inr m"
    by (simp add: IdMap_of_set_tokens_links m)
  have "fst ` set (links (set_tokens_links c) a) = fst ` set (links c a)"
    using arg_cong[OF links_set_tokens_links, of set c a] by simp
  with assms(1) have l0: "k \<in> fst ` set (links (set_tokens_links c) a)" by simp
  show ?thesis
  proof (cases "setIdMap c a")
    case (Inl e)
    from setIdMap_Inl[OF m Inl] Inl m show ?thesis by auto
  next
    case (Inr y)
    then have "set_id_map (set_tokens_links c) a = Inr (fst y, snd y)"
      by (simp add: setIdMap_def)
    from set_id_map_found[OF this m0 l0] k show ?thesis by simp
  qed
qed

theorem unresolved_identifier_raises_witness:
  "Some ''s9'' \<in> fst ` set (links (fst (before_end dangling_dump)) (snd (before_end dangling_dump)))
   \<and> map_sum id (\<lambda>IdMap. IdMap (Some ''s9''))
       (IdMap_of (fst (before_end dangling_dump)) (snd (before_end dangling_dump))) = Inr None
   \<and> setIdMap (fst (before_end dangling_dump)) (snd (before_end dangling_dump))
       = Inl (KeyError (Some ''s9''))
   \<and> iterconfigurations (events_of dangling_dump) = ([], Some (KeyError (Some ''s9'')))"
proof -
  have h1: "Some ''s9''
      \<in> fst ` set (links (fst (before_end dangling_dump)) (snd (before_end dangling_dump)))"
    by code_simp
  have h2: "map_sum id (\<lambda>IdMap. IdMap (Some ''s9''))
       (IdMap_of (fst (before_end dangling_dump)) (snd (before_end dangling_dump))) = Inr None"
    by code_simp
  have e: "setIdMap (fst (before_end dangling_dump)) (snd (before_end dangling_dump))
       = Inl (KeyError (Some ''s9''))"
    by code_simp
  have g: "iterconfigurations (events_of dangling_dump) = ([], Some (KeyError (Some ''s9'')))"
    by code_simp
  from unresolved_identifier_raises[OF h1 h2] h1 h2 e g show ?thesis by simp
qed

text \<open>
  C2, as the code has it. Looking up a reserved identifier (the absent attribute, or
  one of the three all-zero strings) never raises. When no record of the configuration
  and no argument variable carries that identifier as its own, every reference field
  whose attribute is that identifier is None after \<^verbatim>\<open>setIdMap\<close>.
\<close>

theorem reserved_ids_resolve_to_None:
  assumes "k \<in> set reserved_ids"
  shows "(IdMap_of c a = Inr m \<longrightarrow> (\<exists>r. getitem m k = Inr r))
       \<and> (setIdMap c a = Inr (c', a') \<longrightarrow> k \<notin> set (issued_ids c a) \<longrightarrow>
            (k, r) \<in> set (links c' a') \<longrightarrow> r = Some None)"
proof (intro conjI impI)
  assume "IdMap_of c a = Inr m"
  from IdMap_of_reserved[OF this assms] show "\<exists>r. getitem m k = Inr r"
    by (auto simp: getitem_Inr)
next
  assume r: "setIdMap c a = Inr (c', a')" and n: "k \<notin> set (issued_ids c a)"
    and l: "(k, r) \<in> set (links c' a')"
  from r have r0: "set_id_map (set_tokens_links c) a = Inr (c', a')"
    by (simp add: setIdMap_def)
  then obtain m0 where m0: "IdMap_of (set_tokens_links c) a = Inr m0"
    unfolding set_id_map_Inr by blast
  from n have "k \<notin> set (issued_ids (set_tokens_links c) a)"
    by (simp add: issued_ids_set_tokens_links)
  from IdMap_of_not_issued[OF m0 this] assms have "m0 k = Some None"
    by (simp add: IdMap_init_reserved)
  with set_id_map_links[OF r0 m0 l] show "r = Some None" by simp
qed

lemma token_links_in_links:
  "t \<in> set (tokenlist c) \<Longrightarrow> p \<in> set (token_links t) \<Longrightarrow> p \<in> set (links c a)"
  by (auto simp: links_def)

lemma call_links_shape:
  "map (\<lambda>t. (tk_linkId t, tk_link t, tk_variableId t, tk_variable t, tk_astParentId t,
              tk_astParent t)) (tokenlist call_cfg) =
   [(None, None, None, None, Some ''t2'', Some (TokenRef 1)),
    (Some ''t6'', Some (TokenRef 5), None, None, None, None),
    (None, None, Some ''v2'', Some (VariableRef 0), Some ''t4'', Some (TokenRef 3)),
    (None, None, None, None, Some ''t2'', Some (TokenRef 1)),
    (None, None, None, None, Some ''t4'', Some (TokenRef 3)),
    (Some ''t2'', Some (TokenRef 1), Some ''0000000000000000'', None, Some ''0'', None)]"
  by code_simp

theorem reserved_ids_resolve_to_None_witness:
  "set reserved_ids \<inter> set (issued_ids (fst (before_end call_dump)) (snd (before_end call_dump)))
     = {}
   \<and> Some ''0'' \<in> set reserved_ids
   \<and> tk_astParentId (tokenlist call_cfg ! 5) = Some ''0''
   \<and> tk_astParent (tokenlist call_cfg ! 5) = None
   \<and> Some ''0000000000000000'' \<in> set reserved_ids
   \<and> tk_variableId (tokenlist call_cfg ! 5) = Some ''0000000000000000''
   \<and> tk_variable (tokenlist call_cfg ! 5) = None
   \<and> None \<in> set reserved_ids
   \<and> tk_linkId (tokenlist call_cfg ! 0) = None
   \<and> tk_link (tokenlist call_cfg ! 0) = None"
proof -
  let ?c = "fst (before_end call_dump)" and ?a = "snd (before_end call_dump)"
  have res: "Some ''0'' \<in> set reserved_ids" "Some ''0000000000000000'' \<in> set reserved_ids"
    "None \<in> set reserved_ids"
    by (simp_all add: reserved_ids_def)
  have "filter (\<lambda>k. k \<in> set (issued_ids ?c ?a)) reserved_ids = []"
    by code_simp
  then have iss: "set reserved_ids \<inter> set (issued_ids ?c ?a) = {}"
    by (auto simp: filter_empty_conv)
  with res have n: "Some ''0'' \<notin> set (issued_ids ?c ?a)"
    "Some ''0000000000000000'' \<notin> set (issued_ids ?c ?a)" "None \<notin> set (issued_ids ?c ?a)"
    by blast+
  note sh = shape_nth[OF call_links_shape]
  have t5: "tokenlist call_cfg ! 5 \<in> set (tokenlist call_cfg)"
    "tk_astParentId (tokenlist call_cfg ! 5) = Some ''0''"
    "tk_variableId (tokenlist call_cfg ! 5) = Some ''0000000000000000''"
    using sh[of 5] by simp_all
  have t0: "tokenlist call_cfg ! 0 \<in> set (tokenlist call_cfg)"
    "tk_linkId (tokenlist call_cfg ! 0) = None"
    using sh[of 0] by simp_all
  have l1: "(Some ''0'', Some (tk_astParent (tokenlist call_cfg ! 5)))
        \<in> set (links call_cfg (snd (yielded call_dump)))"
    by (rule token_links_in_links[OF t5(1)]) (simp add: token_links_def t5(2)[symmetric])
  have l2: "(Some ''0000000000000000'', Some (tk_variable (tokenlist call_cfg ! 5)))
        \<in> set (links call_cfg (snd (yielded call_dump)))"
    by (rule token_links_in_links[OF t5(1)]) (simp add: token_links_def t5(3)[symmetric])
  have l3: "(None, Some (tk_link (tokenlist call_cfg ! 0)))
        \<in> set (links call_cfg (snd (yielded call_dump)))"
    by (rule token_links_in_links[OF t0(1)]) (simp add: token_links_def t0(2)[symmetric])
  have r: "setIdMap ?c ?a = Inr (call_cfg, snd (yielded call_dump))"
    using call_dump_resolved by (simp add: call_cfg_def)
  note t = reserved_ids_resolve_to_None[where c = ?c and a = ?a and c' = call_cfg
      and a' = "snd (yielded call_dump)"]
  from t[OF res(1), THEN conjunct2, rule_format, OF r n(1) l1]
    t[OF res(2), THEN conjunct2, rule_format, OF r n(2) l2]
    t[OF res(3), THEN conjunct2, rule_format, OF r n(3) l3]
    res iss t5 t0
  show ?thesis by simp
qed

text \<open>
  The claim fails when a record carries a reserved identifier as its own: the table's
  entry for \<^verbatim>\<open>0\<close> is overwritten by the token with that identifier, and the token's
  \<^verbatim>\<open>link\<close> attribute \<^verbatim>\<open>0\<close> resolves to the token instead of None.
\<close>

theorem reserved_ids_counterexample:
  "Some ''0'' \<in> set reserved_ids
   \<and> tk_Id (tokenlist (fst (yielded zero_id_dump)) ! 0) = Some ''0''
   \<and> tk_linkId (tokenlist (fst (yielded zero_id_dump)) ! 0) = Some ''0''
   \<and> tk_link (tokenlist (fst (yielded zero_id_dump)) ! 0) = Some (TokenRef 0)
   \<and> length (fst (iterconfigurations (events_of zero_id_dump))) = 1
   \<and> snd (iterconfigurations (events_of zero_id_dump)) = None"
  by code_simp

text \<open>
  C5. A function's \<^verbatim>\<open>arg\<close> element gave the number \<open>nr\<close> and the identifier
  \<open>k\<close>; the argument variable with identifier \<open>k\<close> is at position \<open>j\<close> of the
  argument variables, no other argument variable and no value list has this identifier.
  Then after \<^verbatim>\<open>setIdMap\<close> the function's argument \<open>nr\<close> is that variable, wherever
  the \<^verbatim>\<open>var\<close> element stood in the document: the table is complete before the
  first record is rewritten.
\<close>

theorem argument_forward_reference:
  assumes r: "setIdMap c a = Inr (c', a')"
    and i: "i < length (functionlist c)" and f: "functionlist c ! i = Some f"
    and nr: "DAList.lookup (fn_argumentId f) nr = Some k"
    and j: "j < length a" and v: "var_Id (a ! j) = k"
    and u1: "\<forall>j'. j' < length a \<and> j' \<noteq> j \<longrightarrow> var_Id (a ! j') \<noteq> k"
    and u2: "\<forall>v. Some v \<in> set (valueflow c) \<longrightarrow> vf_Id v \<noteq> k"
  shows "\<exists>f'. functionlist c' ! i = Some f'
            \<and> DAList.lookup (fn_argument f') nr = Some (Some (ArgumentRef j))
            \<and> j < length a' \<and> var_Id (a' ! j) = k"
proof -
  from r have r0: "set_id_map (set_tokens_links c) a = Inr (c', a')"
    by (simp add: setIdMap_def)
  then obtain m ts ss fs vs where
    m: "IdMap_of (set_tokens_links c) a = Inr m" and
    fs: "list_all2 (\<lambda>x y. method_of (Function_setId m) x = Inr y) (functionlist c) fs" and
    as: "list_all2 (\<lambda>x y. Variable_setId m x = Inr y) a a'" and
    c': "c' = (set_tokens_links c)\<lparr>tokenlist := ts, scopes := ss, functionlist := fs,
                                    variables := vs\<rparr>"
    unfolding set_id_map_Inr by auto
  from fs i f have "method_of (Function_setId m) (Some f) = Inr (fs ! i)"
    by (auto simp: list_all2_conv_all_nth)
  then obtain f' where f': "fs ! i = Some f'" and s: "Function_setId m f = Inr f'"
    by (auto simp: method_of_Inr)
  from nr have "map_of (DAList.impl_of (fn_argumentId f)) nr = Some k"
    by (simp add: lookup.rep_eq)
  then have "(nr, k) \<in> set (DAList.impl_of (fn_argumentId f))"
    by (rule map_of_SomeD)
  then have "(nr, k) \<in> set (DAList.impl_of (fn_argumentId f'))"
    by (simp add: Function_setId_same(2)[OF s])
  then have "(\<lambda>(argnr, argid). (argid, DAList.lookup (fn_argument f') argnr)) (nr, k)
      \<in> (\<lambda>(argnr, argid). (argid, DAList.lookup (fn_argument f') argnr))
          ` set (DAList.impl_of (fn_argumentId f'))"
    by (rule imageI)
  then have "(k, DAList.lookup (fn_argument f') nr) \<in> set (function_links f')"
    by (simp add: function_links_def)
  from Function_setId_links[OF s this]
  have "DAList.lookup (fn_argument f') nr = m k" by simp
  also from u2 have "\<forall>v. Some v \<in> set (valueflow (set_tokens_links c)) \<longrightarrow> vf_Id v \<noteq> k"
    by simp
  from IdMap_of_argument[OF m j v u1 this] have "m k = Some (Some (ArgumentRef j))" .
  finally have a: "DAList.lookup (fn_argument f') nr = Some (Some (ArgumentRef j))" .
  from as j have "Variable_setId m (a ! j) = Inr (a' ! j)" and len: "length a' = length a"
    by (auto simp: list_all2_conv_all_nth)
  from Variable_setId_same(1)[OF this(1)] v have "var_Id (a' ! j) = k" by simp
  with a f' c' j len show ?thesis by simp
qed

theorem argument_forward_reference_witness:
  "map_option (\<lambda>f. DAList.lookup (fn_argumentId f) 1)
      (functionlist (fst (before_end call_dump)) ! 0) = Some (Some (Some ''v1''))
   \<and> map var_Id (snd (before_end call_dump)) = [Some ''v1'']
   \<and> map_option (\<lambda>f. DAList.lookup (fn_argument f) 1)
      (functionlist (fst (yielded call_dump)) ! 0) = Some (Some (Some (ArgumentRef 0)))
   \<and> map var_Id (snd (yielded call_dump)) = [Some ''v1'']"
proof -
  let ?c = "fst (before_end call_dump)" and ?a = "snd (before_end call_dump)"
  let ?c' = "fst (yielded call_dump)" and ?a' = "snd (yielded call_dump)"
  have sh: "(length (functionlist ?c),
        map_option (\<lambda>f. DAList.lookup (fn_argumentId f) 1) (functionlist ?c ! 0),
        map var_Id ?a, map (map_option vf_Id) (valueflow ?c))
      = (1, Some (Some (Some ''v1'')), [Some ''v1''], [Some (Some ''vals1'')])"
    by code_simp
  have sh': "(map_option (\<lambda>f. DAList.lookup (fn_argument f) 1) (functionlist ?c' ! 0),
        map var_Id ?a')
      = (Some (Some (Some (ArgumentRef 0))), [Some ''v1''])"
    by code_simp
  from sh have fl: "0 < length (functionlist ?c)" by simp
  from sh have arg: "map_option (\<lambda>f. DAList.lookup (fn_argumentId f) 1) (functionlist ?c ! 0)
      = Some (Some (Some ''v1''))"
    by simp
  then obtain f where f: "functionlist ?c ! 0 = Some f"
    and nr: "DAList.lookup (fn_argumentId f) 1 = Some (Some ''v1'')"
    by (cases "functionlist ?c ! 0") auto
  from sh sh' have bag: "map var_Id ?a = [Some ''v1'']" and bag': "map var_Id ?a' = [Some ''v1'']"
    by simp_all
  have len: "length ?a = 1" using arg_cong[OF bag, of length] by simp
  from bag len have v: "var_Id (?a ! 0) = Some ''v1''"
    using nth_map[of 0 ?a var_Id] by simp
  from len have j: "0 < length ?a" by simp
  from len have u1: "\<forall>j'. j' < length ?a \<and> j' \<noteq> 0 \<longrightarrow> var_Id (?a ! j') \<noteq> Some ''v1''"
    by simp
  from sh have vals: "map (map_option vf_Id) (valueflow ?c) = [Some (Some ''vals1'')]"
    by simp
  have u2: "\<forall>v. Some v \<in> set (valueflow ?c) \<longrightarrow> vf_Id v \<noteq> Some ''v1''"
  proof (intro allI impI)
    fix v assume "Some v \<in> set (valueflow ?c)"
    then have "map_option vf_Id (Some v) \<in> set (map (map_option vf_Id) (valueflow ?c))"
      by (simp only: set_map) (rule imageI)
    with vals show "vf_Id v \<noteq> Some ''v1''" by simp
  qed
  from argument_forward_reference[OF call_dump_resolved fl f nr j v u1 u2]
  obtain f' where "functionlist ?c' ! 0 = Some f'"
    "DAList.lookup (fn_argument f') 1 = Some (Some (ArgumentRef 0))"
    by blast
  with arg bag bag' show ?thesis by simp
qed

lemma token_update_same:
  "tk_previous t = p \<Longrightarrow> tk_next t = n \<Longrightarrow> t\<lparr>tk_previous := p, tk_next := n\<rparr> = t"
  by auto

lemma linked_from_fixed:
  assumes "\<forall>i<length ts.
      tk_previous (ts ! i) = (if i = 0 then None else Some (TokenRef (i - 1)))
      \<and> (Suc i < length ts \<longrightarrow> tk_next (ts ! i) = Some (TokenRef (Suc i)))"
  shows "linked_from 0 ts = ts"
proof (rule nth_equalityI)
  show "length (linked_from 0 ts) = length ts" by simp
next
  fix i assume "i < length (linked_from 0 ts)"
  then have i: "i < length ts" by simp
  show "linked_from 0 ts ! i = ts ! i"
    unfolding nth_linked_from[OF i]
    by (rule token_update_same) (use assms i in auto)
qed

lemma method_of_fn_Id:
  "method_of (Function_setId m) x = Inr y \<Longrightarrow> attr_of fn_Id y = attr_of fn_Id x"
  by (auto simp: method_of_Inr attr_of_def Function_setId_same)

lemma method_of_idem:
  assumes "\<And>x y. f x = Inr y \<Longrightarrow> f y = Inr y" and "method_of f x = Inr y"
  shows "method_of f y = Inr y"
  using assms by (auto simp: method_of_Inr)

text \<open>
  C6. Running \<^verbatim>\<open>setIdMap\<close> again on the resolved configuration, with the resolved
  argument variables, returns the same configuration and argument variables.
\<close>

theorem setIdMap_idempotent:
  assumes "setIdMap c a = Inr (c', a')"
  shows "setIdMap c' a' = Inr (c', a')"
proof -
  let ?c0 = "set_tokens_links c"
  from assms have r0: "set_id_map ?c0 a = Inr (c', a')"
    by (simp add: setIdMap_def)
  then obtain m ts ss fs vs where
    m: "IdMap_of ?c0 a = Inr m" and
    ts: "list_all2 (\<lambda>x y. Token_setId m x = Inr y) (linked_from 0 (tokenlist c)) ts" and
    ss: "list_all2 (\<lambda>x y. Scope_setId m x = Inr y) (scopes c) ss" and
    fs: "list_all2 (\<lambda>x y. method_of (Function_setId m) x = Inr y) (functionlist c) fs" and
    vs: "list_all2 (\<lambda>x y. Variable_setId m x = Inr y) (variables c) vs" and
    as: "list_all2 (\<lambda>x y. Variable_setId m x = Inr y) a a'" and
    c': "c' = ?c0\<lparr>tokenlist := ts, scopes := ss, functionlist := fs, variables := vs\<rparr>"
    unfolding set_id_map_Inr by auto
  have sel: "tokenlist c' = ts" "scopes c' = ss" "functionlist c' = fs" "variables c' = vs"
    "valueflow c' = valueflow ?c0"
    by (simp_all add: c')
  \<comment> \<open>the tokens are linked already\<close>
  have len: "length ts = length (tokenlist c)"
    using ts by (auto dest: list_all2_lengthD)
  have "linked_from 0 ts = ts"
  proof (rule linked_from_fixed, intro allI impI)
    fix i assume i: "i < length ts"
    with ts have "Token_setId m (linked_from 0 (tokenlist c) ! i) = Inr (ts ! i)"
      by (auto simp: list_all2_conv_all_nth)
    from Token_setId_same(2,3)[OF this] i len
    show "tk_previous (ts ! i) = (if i = 0 then None else Some (TokenRef (i - 1)))
      \<and> (Suc i < length ts \<longrightarrow> tk_next (ts ! i) = Some (TokenRef (Suc i)))"
      by (simp add: nth_linked_from)
  qed
  then have l: "set_tokens_links c' = c'"
    by (simp add: set_tokens_links_linked_from sel)
  \<comment> \<open>the same table\<close>
  have "IdMap_of c' a' = IdMap_of ?c0 a"
  proof (rule IdMap_of_cong)
    show "map tk_Id (tokenlist c') = map tk_Id (tokenlist ?c0)"
      using list_all2_map_eq[OF ts, of tk_Id] by (simp add: sel Token_setId_same)
    show "map sc_Id (scopes c') = map sc_Id (scopes ?c0)"
      using list_all2_map_eq[OF ss, of sc_Id] by (simp add: sel Scope_setId_same)
    show "map (attr_of fn_Id) (functionlist c') = map (attr_of fn_Id) (functionlist ?c0)"
      using list_all2_map_eq[OF fs, of "attr_of fn_Id"]
      by (simp add: sel method_of_fn_Id)
    show "map var_Id (variables c') = map var_Id (variables ?c0)"
      using list_all2_map_eq[OF vs, of var_Id] by (simp add: sel Variable_setId_same)
    show "map var_Id a' = map var_Id a"
      using list_all2_map_eq[OF as, of var_Id] by (simp add: Variable_setId_same)
    show "valueflow c' = valueflow ?c0" by (simp add: sel)
  qed
  with m have m': "IdMap_of c' a' = Inr m" by simp
  \<comment> \<open>every record is rewritten to itself\<close>
  have ts': "list_all2 (\<lambda>x y. Token_setId m x = Inr y) ts ts"
    by (rule list_all2_idem[OF ts]) (rule Token_setId_idem)
  have ss': "list_all2 (\<lambda>x y. Scope_setId m x = Inr y) ss ss"
    by (rule list_all2_idem[OF ss]) (rule Scope_setId_idem)
  have fs': "list_all2 (\<lambda>x y. method_of (Function_setId m) x = Inr y) fs fs"
    by (rule list_all2_idem[OF fs]) (rule method_of_idem[OF Function_setId_idem])
  have vs': "list_all2 (\<lambda>x y. Variable_setId m x = Inr y) vs vs"
    by (rule list_all2_idem[OF vs]) (rule Variable_setId_idem)
  have as': "list_all2 (\<lambda>x y. Variable_setId m x = Inr y) a' a'"
    by (rule list_all2_idem[OF as]) (rule Variable_setId_idem)
  have "c' = c'\<lparr>tokenlist := ts, scopes := ss, functionlist := fs, variables := vs\<rparr>"
    by (simp add: c')
  with m' ts' ss' fs' vs' as' have "set_id_map c' a' = Inr (c', a')"
    unfolding set_id_map_Inr sel by blast
  with l show ?thesis by (simp add: setIdMap_def)
qed

theorem setIdMap_idempotent_witness:
  "setIdMap (fst (before_end call_dump)) (snd (before_end call_dump))
     = Inr (fst (yielded call_dump), snd (yielded call_dump))
   \<and> setIdMap (fst (yielded call_dump)) (snd (yielded call_dump))
     = Inr (fst (yielded call_dump), snd (yielded call_dump))"
  using setIdMap_idempotent[OF call_dump_resolved] call_dump_resolved by simp

end
